theory Spec2Isabelle
  imports Main "HOL-Library.Word"
begin

unbundle bit_operations_syntax

section \<open>Data model of the decoder\<close>

type_synonym byte = "8 word"

text \<open>
  Modelled from the spec: the \<open>Encoding\<close> type, its three constants and its predicates
  \<open>IsBin\<close>, \<open>IsBorsh\<close>, \<open>IsCompactU16\<close> are declared in another file of the package
  (``EncodingMode: one of Bin | Borsh | CompactU16'').
\<close>

datatype Encoding = EncodingBin | EncodingBorsh | EncodingCompactU16

text \<open>\<open>binary.ByteOrder\<close> of the Go standard library, with its two implementations.\<close>

datatype ByteOrder = LittleEndian | BigEndian

text \<open>
  Modelled from the spec: the \<open>option\<close> struct (the per-value directive) is declared
  in another file of the package; the decoder sets \<open>OptionalField\<close> and \<open>Order\<close> and
  uses \<open>isOptional\<close>, \<open>hasSizeOfSlice\<close>, \<open>getSizeOfSlice\<close>, \<open>setSizeOfSlice\<close>
  (``FieldDirective: isOptional, byteOrder, linkedSize: optional int''). \<open>SizeOfSlice\<close>
  is \<open>None\<close> when no size is linked.
\<close>

record option_t =
  OptionalField :: bool
  Order :: ByteOrder
  SizeOfSlice :: "int option"

definition isOptional :: "option_t \<Rightarrow> bool" where
  "isOptional opt = OptionalField opt"

definition hasSizeOfSlice :: "option_t \<Rightarrow> bool" where
  "hasSizeOfSlice opt = (SizeOfSlice opt \<noteq> None)"

definition setSizeOfSlice :: "option_t \<Rightarrow> int \<Rightarrow> option_t" where
  "setSizeOfSlice opt s = opt\<lparr>SizeOfSlice := Some s\<rparr>"

text \<open>
  The \<open>Decoder\<close> struct. \<open>pos\<close> is a Go \<open>int\<close>, taken as 64 bits wide; the model keeps
  it as an integer and writes the wrap-around out where the code converts or subtracts.
\<close>

record Decoder =
  data :: "byte list"
  pos :: int
  currentFieldOpt :: "option_t option"
  encoding :: Encoding

text \<open>
  The errors of the code are \<open>fmt.Errorf\<close> strings; each constructor stands for one
  message and carries the numbers the message prints. A panic aborts the call chain the
  same way, and is kept apart from the errors a caller receives as values.
\<close>

datatype error =
    TruncatedInput int int
  | ErrVarIntBufferSize
  | DisallowedNaN
  | ByteArrayMissing int int
  | PositionOutsideBuffer int int
  | IsPresentError error
  | ReadBoolError error
  | UnsupportedType
  | UnaddressableField string
  | InvalidDecoderError
  | ExternalError nat

datatype panic =
    TagOrderingViolation string
  | SizeofField
  | BoundsPanic
  | MakeSliceNegative
  | ReflectPanic
  | EncodingNotImplemented

datatype failure = Failed error | Panicked panic

type_synonym 'a result = "(failure + 'a) \<times> Decoder"

section \<open>Primitive reader\<close>

text \<open>Conversion of an integer to the 64-bit Go \<open>int\<close> (two's complement wrap-around).\<close>

definition int64 :: "int \<Rightarrow> int" where
  "int64 k = signed_take_bit 63 k"

definition IsBorsh :: "Decoder \<Rightarrow> bool" where
  "IsBorsh dec = (encoding dec = EncodingBorsh)"

definition IsBin :: "Decoder \<Rightarrow> bool" where
  "IsBin dec = (encoding dec = EncodingBin)"

definition IsCompactU16 :: "Decoder \<Rightarrow> bool" where
  "IsCompactU16 dec = (encoding dec = EncodingCompactU16)"

definition Remaining :: "Decoder \<Rightarrow> int" where
  "Remaining dec = int64 (int (length (data dec)) - pos dec)"

definition HasRemaining :: "Decoder \<Rightarrow> bool" where
  "HasRemaining dec = (Remaining dec > 0)"

definition Position :: "Decoder \<Rightarrow> 64 word" where
  "Position dec = word_of_int (pos dec)"

text \<open>
  The slice expression \<open>dec.data[dec.pos:]\<close>; \<open>None\<close> is the run-time panic of a
  slice bound out of range.
\<close>

definition sliceFrom :: "Decoder \<Rightarrow> byte list option" where
  "sliceFrom dec =
     (if 0 \<le> pos dec \<and> pos dec \<le> int (length (data dec))
      then Some (drop (nat (pos dec)) (data dec)) else None)"

text \<open>
  \<open>order.Uint16\<close>, \<open>order.Uint32\<close>, \<open>order.Uint64\<close> of \<open>encoding/binary\<close>: the first
  2, 4 or 8 bytes of the slice, assembled least or most significant byte first; a
  shorter slice panics (\<open>None\<close>).
\<close>

definition le_bytes :: "byte list \<Rightarrow> 'a::len word" where
  "le_bytes bs = foldr (\<lambda>b acc. ucast b OR push_bit 8 acc) bs 0"

definition be_bytes :: "byte list \<Rightarrow> 'a::len word" where
  "be_bytes bs = foldl (\<lambda>acc b. push_bit 8 acc OR ucast b) 0 bs"

definition order_bytes :: "ByteOrder \<Rightarrow> nat \<Rightarrow> byte list \<Rightarrow> 'a::len word option" where
  "order_bytes order n bs =
     (if length bs < n then None
      else Some (case order of LittleEndian \<Rightarrow> le_bytes (take n bs)
                             | BigEndian \<Rightarrow> be_bytes (take n bs)))"

definition Uint16 :: "ByteOrder \<Rightarrow> byte list \<Rightarrow> 16 word option" where
  "Uint16 order bs = order_bytes order 2 bs"

definition Uint32 :: "ByteOrder \<Rightarrow> byte list \<Rightarrow> 32 word option" where
  "Uint32 order bs = order_bytes order 4 bs"

definition Uint64 :: "ByteOrder \<Rightarrow> byte list \<Rightarrow> 64 word option" where
  "Uint64 order bs = order_bytes order 8 bs"

definition ReadByte :: "Decoder \<Rightarrow> byte result" where
  "ReadByte dec =
     (if Remaining dec < 1 then (Inl (Failed (TruncatedInput 1 (Remaining dec))), dec)
      else if pos dec < 0 \<or> int (length (data dec)) \<le> pos dec
        then (Inl (Panicked BoundsPanic), dec)
      else (Inr (data dec ! nat (pos dec)), dec\<lparr>pos := pos dec + 1\<rparr>))"

definition ReadBool :: "Decoder \<Rightarrow> bool result" where
  "ReadBool dec =
     (if Remaining dec < 1 then (Inl (Failed (TruncatedInput 1 (Remaining dec))), dec)
      else case ReadByte dec of
          (Inl (Failed e), dec') \<Rightarrow> (Inl (Failed (ReadBoolError e)), dec')
        | (Inl (Panicked p), dec') \<Rightarrow> (Inl (Panicked p), dec')
        | (Inr b, dec') \<Rightarrow> (Inr (b \<noteq> 0), dec'))"

definition ReadUint8 :: "Decoder \<Rightarrow> byte result" where
  "ReadUint8 dec = ReadByte dec"

definition ReadInt8 :: "Decoder \<Rightarrow> byte result" where
  "ReadInt8 dec = ReadByte dec"

text \<open>
  \<open>readNBytes\<close>: a buffer of \<open>n\<close> zero bytes is allocated (a negative \<open>n\<close> panics in
  \<open>make\<close>) and filled by \<open>n\<close> calls of \<open>ReadByte\<close>; the first failing call ends the loop
  with its error.
\<close>

function readNBytes_loop :: "int \<Rightarrow> int \<Rightarrow> byte list \<Rightarrow> Decoder \<Rightarrow> (byte list) result" where
  "readNBytes_loop i n buf reader =
     (if i < n then
        (case ReadByte reader of
           (Inl err, reader') \<Rightarrow> (Inl err, reader')
         | (Inr b, reader') \<Rightarrow> readNBytes_loop (i + 1) n (buf[nat i := b]) reader')
      else (Inr buf, reader))"
  by pat_completeness auto
termination
  by (relation "measure (\<lambda>(i, n, buf, reader). nat (n - i))") auto

declare readNBytes_loop.simps [simp del]

definition readNBytes :: "int \<Rightarrow> Decoder \<Rightarrow> (byte list) result" where
  "readNBytes n reader =
     (if n < 0 then (Inl (Panicked MakeSliceNegative), reader)
      else readNBytes_loop 0 n (replicate (nat n) 0) reader)"

definition ReadNBytes :: "Decoder \<Rightarrow> int \<Rightarrow> (byte list) result" where
  "ReadNBytes dec n = readNBytes n dec"

definition ReadUint16 :: "Decoder \<Rightarrow> ByteOrder \<Rightarrow> (16 word) result" where
  "ReadUint16 dec order =
     (if Remaining dec < 2 then (Inl (Failed (TruncatedInput 2 (Remaining dec))), dec)
      else case sliceFrom dec of
          None \<Rightarrow> (Inl (Panicked BoundsPanic), dec)
        | Some bs \<Rightarrow>
            (case Uint16 order bs of
               None \<Rightarrow> (Inl (Panicked BoundsPanic), dec)
             | Some out \<Rightarrow> (Inr out, dec\<lparr>pos := pos dec + 2\<rparr>)))"

definition ReadInt16 :: "Decoder \<Rightarrow> ByteOrder \<Rightarrow> (16 word) result" where
  "ReadInt16 dec order = ReadUint16 dec order"

definition ReadUint32 :: "Decoder \<Rightarrow> ByteOrder \<Rightarrow> (32 word) result" where
  "ReadUint32 dec order =
     (if Remaining dec < 4 then (Inl (Failed (TruncatedInput 4 (Remaining dec))), dec)
      else case sliceFrom dec of
          None \<Rightarrow> (Inl (Panicked BoundsPanic), dec)
        | Some bs \<Rightarrow>
            (case Uint32 order bs of
               None \<Rightarrow> (Inl (Panicked BoundsPanic), dec)
             | Some out \<Rightarrow> (Inr out, dec\<lparr>pos := pos dec + 4\<rparr>)))"

definition ReadInt32 :: "Decoder \<Rightarrow> ByteOrder \<Rightarrow> (32 word) result" where
  "ReadInt32 dec order = ReadUint32 dec order"

definition ReadUint64 :: "Decoder \<Rightarrow> ByteOrder \<Rightarrow> (64 word) result" where
  "ReadUint64 dec order =
     (if Remaining dec < 8 then (Inl (Failed (TruncatedInput 8 (Remaining dec))), dec)
      else case ReadNBytes dec 8 of
          (Inl err, dec') \<Rightarrow> (Inl err, dec')
        | (Inr bs, dec') \<Rightarrow>
            (case Uint64 order bs of
               None \<Rightarrow> (Inl (Panicked BoundsPanic), dec')
             | Some out \<Rightarrow> (Inr out, dec')))"

definition ReadInt64 :: "Decoder \<Rightarrow> ByteOrder \<Rightarrow> (64 word) result" where
  "ReadInt64 dec order = ReadUint64 dec order"

text \<open>
  Floating-point values are kept as their IEEE 754 bit patterns, which is what
  \<open>math.Float32frombits\<close> and \<open>math.Float64frombits\<close> reinterpret. \<open>math.IsNaN\<close> holds
  of exactly the patterns with all exponent bits set and a non-zero fraction; the
  widening \<open>float64(out)\<close> before the test keeps a NaN a NaN.
\<close>

definition IsNaN32 :: "32 word \<Rightarrow> bool" where
  "IsNaN32 n = (n AND 0x7F800000 = 0x7F800000 \<and> n AND 0x007FFFFF \<noteq> 0)"

definition IsNaN64 :: "64 word \<Rightarrow> bool" where
  "IsNaN64 n = (n AND 0x7FF0000000000000 = 0x7FF0000000000000 \<and> n AND 0x000FFFFFFFFFFFFF \<noteq> 0)"

definition ReadFloat32 :: "Decoder \<Rightarrow> ByteOrder \<Rightarrow> (32 word) result" where
  "ReadFloat32 dec order =
     (if Remaining dec < 4 then (Inl (Failed (TruncatedInput 4 (Remaining dec))), dec)
      else case sliceFrom dec of
          None \<Rightarrow> (Inl (Panicked BoundsPanic), dec)
        | Some bs \<Rightarrow>
            (case Uint32 order bs of
               None \<Rightarrow> (Inl (Panicked BoundsPanic), dec)
             | Some out \<Rightarrow>
                 (let dec' = dec\<lparr>pos := pos dec + 4\<rparr> in
                  if IsBorsh dec' \<and> IsNaN32 out then (Inl (Failed DisallowedNaN), dec')
                  else (Inr out, dec'))))"

definition ReadFloat64 :: "Decoder \<Rightarrow> ByteOrder \<Rightarrow> (64 word) result" where
  "ReadFloat64 dec order =
     (if Remaining dec < 8 then (Inl (Failed (TruncatedInput 8 (Remaining dec))), dec)
      else case sliceFrom dec of
          None \<Rightarrow> (Inl (Panicked BoundsPanic), dec)
        | Some bs \<Rightarrow>
            (case Uint64 order bs of
               None \<Rightarrow> (Inl (Panicked BoundsPanic), dec)
             | Some out \<Rightarrow>
                 (let dec' = dec\<lparr>pos := pos dec + 8\<rparr> in
                  if IsBorsh dec' \<and> IsNaN64 out then (Inl (Failed DisallowedNaN), dec')
                  else (Inr out, dec'))))"

text \<open>\<open>SetPosition(idx uint)\<close>: \<open>int(idx)\<close> reinterprets the 64 bits as a signed value.\<close>

definition SetPosition :: "Decoder \<Rightarrow> 64 word \<Rightarrow> unit result" where
  "SetPosition dec idx =
     (if sint idx < int (length (data dec)) then (Inr (), dec\<lparr>pos := sint idx\<rparr>)
      else (Inl (Failed (PositionOutsideBuffer (uint idx) (int (length (data dec))))), dec))"

definition SkipBytes :: "Decoder \<Rightarrow> 64 word \<Rightarrow> unit result" where
  "SkipBytes dec count =
     (if (word_of_int (Remaining dec) :: 64 word) < count
      then (Inl (Failed (TruncatedInput (uint count) (Remaining dec))), dec)
      else (Inr (), dec\<lparr>pos := int64 (pos dec + sint count)\<rparr>))"

section \<open>Variable-length integers, lengths, byte slices and strings\<close>

text \<open>
  \<open>binary.Uvarint\<close> of the Go standard library: the loop over the bytes of the buffer,
  with the index \<open>i\<close>, the accumulated value \<open>x\<close> and the shift \<open>s\<close>.
\<close>

fun Uvarint_loop :: "byte list \<Rightarrow> nat \<Rightarrow> 64 word \<Rightarrow> nat \<Rightarrow> 64 word \<times> int" where
  "Uvarint_loop [] i x s = (0, 0)"
| "Uvarint_loop (b # buf) i x s =
     (if i = 10 then (0, - (int i + 1))
      else if b < 0x80 then
        (if i = 9 \<and> b > 1 then (0, - (int i + 1))
         else (x OR push_bit s (ucast b), int i + 1))
      else Uvarint_loop buf (i + 1) (x OR push_bit s (ucast (b AND 0x7f))) (s + 7))"

definition Uvarint :: "byte list \<Rightarrow> 64 word \<times> int" where
  "Uvarint buf = Uvarint_loop buf 0 0 0"

definition ReadUvarint64 :: "Decoder \<Rightarrow> (64 word) result" where
  "ReadUvarint64 dec =
     (case sliceFrom dec of
        None \<Rightarrow> (Inl (Panicked BoundsPanic), dec)
      | Some buf \<Rightarrow>
          (case Uvarint buf of
             (l, read) \<Rightarrow>
               if read \<le> 0 then (Inl (Failed ErrVarIntBufferSize), dec)
               else (Inr l, dec\<lparr>pos := pos dec + read\<rparr>)))"

section \<open>Types, values and field tags\<close>

text \<open>
  Modelled from the spec: \<open>parseFieldTag\<close> and the \<open>fieldTag\<close> struct are declared in
  another file of the package (``a per-field declarative string is parsed into skip,
  binary_extension, optional, order, sizeof''); a struct field of the model carries its
  parsed tag. \<open>TagOrder\<close> is the tag's \<open>Order\<close> (the name \<open>Order\<close> is the directive's); an
  empty \<open>SizeOf\<close> is the absent link.
\<close>

record fieldTag =
  SizeOf :: string
  Skip :: bool
  TagOrder :: ByteOrder
  Optional :: bool
  BinaryExtension :: bool

text \<open>
  \<open>reflect.Type\<close>, as far as the decoder inspects it. \<open>TOther\<close> stands for the kinds the
  decoder has no rule for (map, chan, func, complex, uintptr). \<open>TDefined name u b\<close> is a
  defined type \<open>type name u\<close>; \<open>b\<close> says that the pointer type \<open>*name\<close> implements
  \<open>BinaryUnmarshaler\<close>. A struct field carries its name, its parsed tag, whether it is
  exported, and its type.
\<close>

datatype rtype =
    TBool | TInt | TInt8 | TInt16 | TInt32 | TInt64
  | TUint | TUint8 | TUint16 | TUint32 | TUint64
  | TFloat32 | TFloat64 | TString | TInterface | TOther
  | TArray nat rtype | TSlice rtype | TPtr rtype
  | TStruct "StructField list"
  | TDefined string rtype bool
and StructField = StructField (FieldName: string) (FieldTag: fieldTag) (Exported: bool) (FieldType: rtype)

text \<open>
  The value held at a location (\<open>reflect.Value\<close> without its flags). Integers are what
  \<open>Int()\<close> and \<open>Uint()\<close> return, floats are bit patterns, strings are byte sequences, a
  pointer owns its target, an interface value carries its dynamic type. A nil slice and
  an empty slice are both \<open>VSlice []\<close>. Values are trees: no pointer reaches itself.
\<close>

datatype val =
    VBool bool
  | VInt "64 word"
  | VUint "64 word"
  | VFloat32 "32 word"
  | VFloat64 "64 word"
  | VString "byte list"
  | VArray "val list"
  | VSlice "val list"
  | VStruct "val list"
  | VPtr "val option"
  | VIface "(rtype \<times> val) option"
  | VOther

fun underlying :: "rtype \<Rightarrow> rtype" where
  "underlying (TDefined n u b) = underlying u"
| "underlying t = t"

definition isPtr :: "rtype \<Rightarrow> bool" where
  "isPtr t = (case underlying t of TPtr e \<Rightarrow> True | _ \<Rightarrow> False)"

definition isInterface :: "rtype \<Rightarrow> bool" where
  "isInterface t = (case underlying t of TInterface \<Rightarrow> True | _ \<Rightarrow> False)"

definition isArray :: "rtype \<Rightarrow> bool" where
  "isArray t = (case underlying t of TArray n e \<Rightarrow> True | _ \<Rightarrow> False)"

definition isSlice :: "rtype \<Rightarrow> bool" where
  "isSlice t = (case underlying t of TSlice e \<Rightarrow> True | _ \<Rightarrow> False)"

text \<open>\<open>Type.Elem()\<close>, used on pointer types only.\<close>

definition Elem :: "rtype \<Rightarrow> rtype" where
  "Elem t = (case underlying t of TPtr e \<Rightarrow> e | TArray n e \<Rightarrow> e | TSlice e \<Rightarrow> e | _ \<Rightarrow> TOther)"

text \<open>\<open>Type.Name()\<close>: empty for type literals, the declared name otherwise.\<close>

fun TypeName :: "rtype \<Rightarrow> string" where
  "TypeName (TDefined n u b) = n"
| "TypeName TBool = ''bool''"
| "TypeName TInt = ''int''"
| "TypeName TInt8 = ''int8''"
| "TypeName TInt16 = ''int16''"
| "TypeName TInt32 = ''int32''"
| "TypeName TInt64 = ''int64''"
| "TypeName TUint = ''uint''"
| "TypeName TUint8 = ''uint8''"
| "TypeName TUint16 = ''uint16''"
| "TypeName TUint32 = ''uint32''"
| "TypeName TUint64 = ''uint64''"
| "TypeName TFloat32 = ''float32''"
| "TypeName TFloat64 = ''float64''"
| "TypeName TString = ''string''"
| "TypeName t = []"

text \<open>
  The test \<open>v.Interface().(BinaryUnmarshaler)\<close> on a pointer value: it succeeds when the
  pointer's type is \<open>*name\<close> for a defined type whose pointer carries the method.
\<close>

fun implementsBinaryUnmarshaler :: "rtype \<Rightarrow> bool" where
  "implementsBinaryUnmarshaler (TPtr (TDefined n u b)) = b"
| "implementsBinaryUnmarshaler t = False"

fun zero :: "rtype \<Rightarrow> val" and zeroFields :: "StructField list \<Rightarrow> val list" where
  "zero TBool = VBool False"
| "zero TInt = VInt 0"
| "zero TInt8 = VInt 0"
| "zero TInt16 = VInt 0"
| "zero TInt32 = VInt 0"
| "zero TInt64 = VInt 0"
| "zero TUint = VUint 0"
| "zero TUint8 = VUint 0"
| "zero TUint16 = VUint 0"
| "zero TUint32 = VUint 0"
| "zero TUint64 = VUint 0"
| "zero TFloat32 = VFloat32 0"
| "zero TFloat64 = VFloat64 0"
| "zero TString = VString []"
| "zero TInterface = VIface None"
| "zero TOther = VOther"
| "zero (TArray n t) = VArray (replicate n (zero t))"
| "zero (TSlice t) = VSlice []"
| "zero (TPtr t) = VPtr None"
| "zero (TStruct fs) = VStruct (zeroFields fs)"
| "zero (TDefined n u b) = zero u"
| "zeroFields [] = []"
| "zeroFields (StructField n tg e t # fs) = zero t # zeroFields fs"

text \<open>Sizes used as termination measures only.\<close>

fun tsize :: "rtype \<Rightarrow> nat" and fsizes :: "StructField list \<Rightarrow> nat" where
  "tsize (TArray n t) = Suc (tsize t)"
| "tsize (TSlice t) = Suc (tsize t)"
| "tsize (TPtr t) = Suc (tsize t)"
| "tsize (TStruct fs) = Suc (fsizes fs)"
| "tsize (TDefined n u b) = Suc (tsize u)"
| "tsize t = 0"
| "fsizes [] = 0"
| "fsizes (StructField n tg e t # fs) = tsize t + fsizes fs"

fun isize :: "val \<Rightarrow> nat" and isizes :: "val list \<Rightarrow> nat" where
  "isize (VArray vs) = isizes vs"
| "isize (VSlice vs) = isizes vs"
| "isize (VStruct vs) = isizes vs"
| "isize (VPtr (Some v)) = isize v"
| "isize (VIface (Some (t, v))) = Suc (tsize t + isize v)"
| "isize v = 0"
| "isizes [] = 0"
| "isizes (v # vs) = isize v + isizes vs"

section \<open>Collaborators\<close>

text \<open>
  Modelled from the spec: the parts of the package that the decoder calls and that are
  declared in other files are parameters of the model. \<open>defaultByteOrder\<close> is the byte
  order of \<open>newDefaultOption()\<close> (``default directive: default order, not optional, no
  linkage''); \<open>DecodeCompactU16LengthFromByteReader\<close> is the compact-u16 length decoder
  (``returns a non-negative integer length, or fails''); \<open>UnmarshalBinary\<close> is the
  custom-decode override of a defined type, given by the type's name: it receives the
  value and the session and returns the new value and session, or fails;
  \<open>decodeWithOptionBorsh\<close> and \<open>decodeWithOptionCompactU16\<close> are the roots of the two
  other mode-specific algorithms.
\<close>

record externals =
  defaultByteOrder :: ByteOrder
  DecodeCompactU16LengthFromByteReader :: "Decoder \<Rightarrow> int result"
  UnmarshalBinary :: "string \<Rightarrow> val \<Rightarrow> Decoder \<Rightarrow> val result"
  decodeWithOptionBorsh :: "rtype \<Rightarrow> val \<Rightarrow> option_t option \<Rightarrow> Decoder \<Rightarrow> val result"
  decodeWithOptionCompactU16 :: "rtype \<Rightarrow> val \<Rightarrow> option_t option \<Rightarrow> Decoder \<Rightarrow> val result"

definition newDefaultOption :: "externals \<Rightarrow> option_t" where
  "newDefaultOption X = \<lparr>OptionalField = False, Order = defaultByteOrder X, SizeOfSlice = None\<rparr>"

section \<open>Lengths, byte slices and strings\<close>

definition ReadLength :: "externals \<Rightarrow> Decoder \<Rightarrow> int result" where
  "ReadLength X dec =
     (case encoding dec of
        EncodingBin \<Rightarrow>
          (case ReadUvarint64 dec of
             (Inl err, dec') \<Rightarrow> (Inl err, dec')
           | (Inr val, dec') \<Rightarrow> (Inr (sint val), dec'))
      | EncodingBorsh \<Rightarrow>
          (case ReadUint32 dec LittleEndian of
             (Inl err, dec') \<Rightarrow> (Inl err, dec')
           | (Inr val, dec') \<Rightarrow> (Inr (uint val), dec'))
      | EncodingCompactU16 \<Rightarrow> DecodeCompactU16LengthFromByteReader X dec)"

text \<open>
  \<open>ReadByteSlice\<close>: the sum \<open>dec.pos + length\<close> is a Go \<open>int\<close>; the slice expression
  \<open>dec.data[dec.pos : dec.pos+length]\<close> panics when its bounds are out of order.
\<close>

definition ReadByteSlice :: "externals \<Rightarrow> Decoder \<Rightarrow> (byte list) result" where
  "ReadByteSlice X dec =
     (case ReadLength X dec of
        (Inl err, dec') \<Rightarrow> (Inl err, dec')
      | (Inr len, dec') \<Rightarrow>
          (let hi = int64 (pos dec' + len) in
           if int (length (data dec')) < hi
           then (Inl (Failed (ByteArrayMissing len (int64 (hi - int (length (data dec')))))), dec')
           else if 0 \<le> pos dec' \<and> pos dec' \<le> hi
           then (Inr (take (nat (hi - pos dec')) (drop (nat (pos dec')) (data dec'))),
                 dec'\<lparr>pos := hi\<rparr>)
           else (Inl (Panicked BoundsPanic), dec')))"

definition ReadString :: "externals \<Rightarrow> Decoder \<Rightarrow> (byte list) result" where
  "ReadString X dec = ReadByteSlice X dec"

text \<open>
  \<open>strings.Map(fixUtf, s)\<close>, from the Go standard library: the string is read rune by
  rune as \<open>utf8.DecodeRuneInString\<close> does; a well-formed rune is written back as it is,
  a byte that starts no well-formed rune is read as \<open>utf8.RuneError\<close> of width 1, which
  \<open>fixUtf\<close> maps to U+FFFD, written as \<open>EF BF BD\<close>. \<open>runeTail b bs\<close> is the number of
  continuation bytes of the well-formed rune starting with \<open>b\<close>, if there is one.
\<close>

definition cont :: "byte \<Rightarrow> byte \<Rightarrow> byte list \<Rightarrow> nat \<Rightarrow> bool" where
  "cont lo hi bs k = (k < length bs \<and> lo \<le> bs ! k \<and> bs ! k \<le> hi)"

definition runeTail :: "byte \<Rightarrow> byte list \<Rightarrow> nat option" where
  "runeTail b bs =
     (if b < 0x80 then Some 0
      else if 0xC2 \<le> b \<and> b \<le> 0xDF then
        (if cont 0x80 0xBF bs 0 then Some 1 else None)
      else if 0xE0 \<le> b \<and> b \<le> 0xEF then
        (if cont (if b = 0xE0 then 0xA0 else 0x80) (if b = 0xED then 0x9F else 0xBF) bs 0
            \<and> cont 0x80 0xBF bs 1 then Some 2 else None)
      else if 0xF0 \<le> b \<and> b \<le> 0xF4 then
        (if cont (if b = 0xF0 then 0x90 else 0x80) (if b = 0xF4 then 0x8F else 0xBF) bs 0
            \<and> cont 0x80 0xBF bs 1 \<and> cont 0x80 0xBF bs 2 then Some 3 else None)
      else None)"

fun Map_fixUtf :: "byte list \<Rightarrow> byte list" where
  "Map_fixUtf [] = []"
| "Map_fixUtf (b # bs) =
     (case runeTail b bs of
        None \<Rightarrow> [0xEF, 0xBF, 0xBD] @ Map_fixUtf bs
      | Some k \<Rightarrow> (b # take k bs) @ Map_fixUtf (drop k bs))"

definition SafeReadUTF8String :: "externals \<Rightarrow> Decoder \<Rightarrow> (byte list) result" where
  "SafeReadUTF8String X dec =
     (case ReadByteSlice X dec of
        (Inl err, dec') \<Rightarrow> (Inl err, dec')
      | (Inr bs, dec') \<Rightarrow> (Inr (Map_fixUtf bs), dec'))"

section \<open>The size of a linked field\<close>

text \<open>
  \<open>sizeof\<close>: \<open>int(v.Int())\<close> for the signed kinds, \<open>int(v.Uint())\<close> clamped at 0 for the
  unsigned kinds (the conversion to the 64-bit \<open>int\<close> reads the same bits as a signed
  number), a panic for every other kind.
\<close>

definition sizeof :: "rtype \<Rightarrow> val \<Rightarrow> panic + int" where
  "sizeof t v =
     (if underlying t \<in> {TInt, TInt8, TInt16, TInt32, TInt64} then
        (case v of VInt w \<Rightarrow> Inr (sint w) | _ \<Rightarrow> Inl ReflectPanic)
      else if underlying t \<in> {TUint, TUint8, TUint16, TUint32, TUint64} then
        (case v of
           VUint w \<Rightarrow> (let n = sint w in if n < 0 then Inr 0 else Inr n)
         | _ \<Rightarrow> Inl ReflectPanic)
      else Inl SizeofField)"

section \<open>Indirection\<close>

text \<open>
  \<open>indirect\<close> walks from a value to the place that is decoded. The model returns the
  place as the path from the value (\<open>InPtr\<close>: through a pointer, \<open>InIface t\<close>: into the
  pointer of type \<open>t\<close> held by an interface), the type and value found there and whether
  it can be set; \<open>plug\<close> puts a new value back at the end of the path. \<open>Override\<close> is the
  result \<open>(u, reflect.Value{})\<close>: a \<open>BinaryUnmarshaler\<close> was found, on a pointer to a
  value of the named defined type. \<open>IndirectPanic\<close> is \<open>v.Set\<close> on a nil pointer that can
  not be set.
\<close>

datatype frame = InPtr | InIface rtype

fun plug :: "frame list \<Rightarrow> val \<Rightarrow> val" where
  "plug [] x = x"
| "plug (InPtr # fs) x = VPtr (Some (plug fs x))"
| "plug (InIface t # fs) x = VIface (Some (t, plug fs x))"

datatype indirect_result =
    Override "frame list" string val
  | Located "frame list" rtype val bool
  | IndirectPanic

text \<open>
  The first test of the loop: \<open>v\<close> is a non-nil interface whose element \<open>e\<close> is a
  non-nil pointer (and, when decoding null, a pointer to a pointer).
\<close>

fun interfaceElem :: "rtype \<Rightarrow> val \<Rightarrow> bool \<Rightarrow> (rtype \<times> val) option" where
  "interfaceElem t (VIface (Some (et, VPtr (Some x)))) decodingNull =
     (if isInterface t \<and> isPtr et \<and> (\<not> decodingNull \<or> isPtr (Elem et))
      then Some (et, VPtr (Some x)) else None)"
| "interfaceElem t v decodingNull = None"

lemma tsize_underlying: "tsize (underlying t) \<le> tsize t"
  by (induction t rule: underlying.induct) auto

lemma tsize_Elem: "isPtr t \<Longrightarrow> tsize (Elem t) < tsize t"
  using tsize_underlying [of t]
  by (auto simp: isPtr_def Elem_def split: rtype.splits)

lemma isize_zero: "isize (zero t) = 0" and isizes_zeroFields: "isizes (zeroFields fs) = 0"
proof (induction t and fs rule: zero_zeroFields.induct)
  case (17 n t)
  have "isizes (replicate n (zero t)) = 0" using 17 by (induction n) auto
  then show ?case by simp
qed auto

lemma interfaceElem_smaller:
  "interfaceElem t v dn = Some (et, ev) \<Longrightarrow> tsize et + isize ev < tsize t + isize v"
  by (induction t v dn rule: interfaceElem.induct) (auto split: if_splits)

function indirect_loop ::
  "frame list \<Rightarrow> rtype \<Rightarrow> val \<Rightarrow> bool \<Rightarrow> bool \<Rightarrow> bool \<Rightarrow> indirect_result" where
  "indirect_loop ctx t v canSet haveAddr decodingNull =
     (case interfaceElem t v decodingNull of
        Some (et, ev) \<Rightarrow> indirect_loop (ctx @ [InIface et]) et ev False False decodingNull
      | None \<Rightarrow>
          if \<not> isPtr t then Located ctx t v canSet
          else
            (case v of
               VPtr p \<Rightarrow>
                 if (p = None \<or> \<not> isPtr (Elem t)) \<and> decodingNull \<and> canSet
                 then Located ctx t v canSet
                 else if p = None \<and> \<not> canSet then IndirectPanic
                 else
                   (let x = (case p of None \<Rightarrow> zero (Elem t) | Some x \<Rightarrow> x);
                        ctx' = (if haveAddr then ctx else ctx @ [InPtr])
                    in if implementsBinaryUnmarshaler t
                       then Override ctx' (TypeName (Elem t)) x
                       else indirect_loop ctx' (Elem t) x True False decodingNull)
             | _ \<Rightarrow> IndirectPanic))"
  by pat_completeness auto
termination
  by (relation "measure (\<lambda>(ctx, t, v, canSet, haveAddr, decodingNull). tsize t + isize v)")
    (auto dest!: interfaceElem_smaller tsize_Elem simp: isize_zero split: option.splits)

declare indirect_loop.simps [simp del]

text \<open>
  \<open>indirect\<close>: a value that is not a pointer, has a named type and is addressable is
  first replaced by its address \<open>v.Addr()\<close>, a non-nil pointer that can not be set;
  \<open>haveAddr\<close> records that the loop must come back to the value itself.
\<close>

definition indirect :: "rtype \<Rightarrow> val \<Rightarrow> bool \<Rightarrow> bool \<Rightarrow> indirect_result" where
  "indirect t v canSet decodingNull =
     (if \<not> isPtr t \<and> TypeName t \<noteq> [] \<and> canSet
      then indirect_loop [] (TPtr t) (VPtr (Some v)) False True decodingNull
      else indirect_loop [] t v canSet False decodingNull)"

section \<open>The decode engine\<close>

definition nest :: "frame list \<Rightarrow> indirect_result \<Rightarrow> indirect_result" where
  "nest ctx r =
     (case r of
        Override c n x \<Rightarrow> Override (ctx @ c) n x
      | Located c t v s \<Rightarrow> Located (ctx @ c) t v s
      | IndirectPanic \<Rightarrow> IndirectPanic)"

text \<open>
  The first part of \<open>decodeBin\<close>: the call of \<open>indirect\<close> and the block
  \<open>if opt.isOptional()\<close>. The result is either final (\<open>Inl\<close>: a failure, or the zero value
  set for an absent optional) or the place to decode (\<open>Inr\<close>). After \<open>indirect\<close> has
  returned an unmarshaler, \<open>rv\<close> is the invalid \<open>reflect.Value{}\<close>, on which \<open>rv.Type()\<close>
  panics; \<open>rv.Set\<close> panics on a value that can not be set.
\<close>

definition decodeBin_optional ::
  "rtype \<Rightarrow> val \<Rightarrow> bool \<Rightarrow> option_t \<Rightarrow> Decoder
     \<Rightarrow> ((failure + val) + indirect_result) \<times> Decoder" where
  "decodeBin_optional t v canSet opt dec =
     (case indirect t v canSet (isOptional opt) of
        IndirectPanic \<Rightarrow> (Inl (Inl (Panicked ReflectPanic)), dec)
      | Override ctx name x \<Rightarrow>
          if isOptional opt then
            (case ReadByte dec of
               (Inl (Panicked p), dec') \<Rightarrow> (Inl (Inl (Panicked p)), dec')
             | (_, dec') \<Rightarrow> (Inl (Inl (Panicked ReflectPanic)), dec'))
          else (Inr (Override ctx name x), dec)
      | Located ctx rt rv canSet' \<Rightarrow>
          if isOptional opt then
            (case ReadByte dec of
               (Inl (Panicked p), dec') \<Rightarrow> (Inl (Inl (Panicked p)), dec')
             | (Inl (Failed e), dec') \<Rightarrow> (Inl (Inl (Failed (IsPresentError e))), dec')
             | (Inr isPresent, dec') \<Rightarrow>
                 if isPresent = 0 then
                   (if canSet' then (Inl (Inr (plug ctx (zero rt))), dec')
                    else (Inl (Inl (Panicked ReflectPanic)), dec'))
                 else
                   (case indirect rt rv canSet' False of
                      IndirectPanic \<Rightarrow> (Inl (Inl (Panicked ReflectPanic)), dec')
                    | r \<Rightarrow> (Inr (nest ctx r), dec')))
          else (Inr (Located ctx rt rv canSet'), dec))"

text \<open>
  The pattern \<open>n, err = dec.Read...(); rv.Set...(n); return\<close>: the setter runs before the
  error is returned.
\<close>

definition setValue :: "bool \<Rightarrow> 'a result \<Rightarrow> ('a \<Rightarrow> val) \<Rightarrow> val result" where
  "setValue canSet r mk =
     (case r of
        (Inl (Panicked p), dec') \<Rightarrow> (Inl (Panicked p), dec')
      | (Inl (Failed e), dec') \<Rightarrow>
          if canSet then (Inl (Failed e), dec') else (Inl (Panicked ReflectPanic), dec')
      | (Inr n, dec') \<Rightarrow>
          if canSet then (Inr (mk n), dec') else (Inl (Panicked ReflectPanic), dec'))"

text \<open>
  The first \<open>switch rv.Kind()\<close> of \<open>decodeBin\<close>, the kinds read by the primitive reader;
  \<open>None\<close> when no case applies. A float32 is kept as the bits read (the round trip
  through \<open>float64\<close> in \<open>SetFloat\<close> is not modelled).
\<close>

definition decodeBin_scalar ::
  "externals \<Rightarrow> rtype \<Rightarrow> val \<Rightarrow> bool \<Rightarrow> option_t \<Rightarrow> Decoder \<Rightarrow> (val result) option" where
  "decodeBin_scalar X rt rv canSet opt dec =
     (case underlying rt of
        TString \<Rightarrow>
          Some (case ReadString X dec of
                  (Inl e, dec') \<Rightarrow> (Inl e, dec')
                | (Inr s, dec') \<Rightarrow>
                    if canSet then (Inr (VString s), dec')
                    else (Inl (Panicked ReflectPanic), dec'))
      | TUint8 \<Rightarrow> Some (setValue canSet (ReadByte dec) (\<lambda>n. VUint (ucast n)))
      | TInt8 \<Rightarrow> Some (setValue canSet (ReadInt8 dec) (\<lambda>n. VInt (scast n)))
      | TInt16 \<Rightarrow> Some (setValue canSet (ReadInt16 dec (Order opt)) (\<lambda>n. VInt (scast n)))
      | TInt32 \<Rightarrow> Some (setValue canSet (ReadInt32 dec (Order opt)) (\<lambda>n. VInt (scast n)))
      | TInt64 \<Rightarrow> Some (setValue canSet (ReadInt64 dec (Order opt)) (\<lambda>n. VInt n))
      | TUint16 \<Rightarrow> Some (setValue canSet (ReadUint16 dec (Order opt)) (\<lambda>n. VUint (ucast n)))
      | TUint32 \<Rightarrow> Some (setValue canSet (ReadUint32 dec (Order opt)) (\<lambda>n. VUint (ucast n)))
      | TUint64 \<Rightarrow> Some (setValue canSet (ReadUint64 dec (Order opt)) (\<lambda>n. VUint n))
      | TFloat32 \<Rightarrow> Some (setValue canSet (ReadFloat32 dec (Order opt)) (\<lambda>n. VFloat32 n))
      | TFloat64 \<Rightarrow> Some (setValue canSet (ReadFloat64 dec (Order opt)) (\<lambda>n. VFloat64 n))
      | TBool \<Rightarrow> Some (setValue canSet (ReadBool dec) (\<lambda>r. VBool r))
      | TInterface \<Rightarrow> Some (Inr rv, dec)
      | _ \<Rightarrow> None)"

text \<open>
  The element count of a slice: the linked size of the directive when it has one,
  an unsigned varint read from the buffer otherwise.
\<close>

definition decodeBin_sliceLength :: "option_t \<Rightarrow> Decoder \<Rightarrow> int result" where
  "decodeBin_sliceLength opt dec =
     (case SizeOfSlice opt of
        Some l \<Rightarrow> (Inr l, dec)
      | None \<Rightarrow>
          (case ReadUvarint64 dec of
             (Inl err, dec') \<Rightarrow> (Inl err, dec')
           | (Inr len, dec') \<Rightarrow> (Inr (sint len), dec')))"

lemma fsizes_Cons: "fsizes (f # fs) = tsize (FieldType f) + fsizes fs"
  by (cases f) simp

lemma fsizes_drop: "i < length fs \<Longrightarrow>
    fsizes (drop i fs) = tsize (FieldType (fs ! i)) + fsizes (drop (Suc i) fs)"
  by (simp add: Cons_nth_drop_Suc [symmetric] fsizes_Cons del: fsizes.simps)

lemma isizes_drop: "i < length vs \<Longrightarrow>
    isizes (drop i vs) = isize (vs ! i) + isizes (drop (Suc i) vs)"
  by (simp add: Cons_nth_drop_Suc [symmetric])

lemma indirect_loop_measure:
  "indirect_loop ctx t v cs ha dn = Located c t' v' cs'
     \<Longrightarrow> tsize t' + isize v' \<le> tsize t + isize v"
proof (induction ctx t v cs ha dn rule: indirect_loop.induct)
  case (1 ctx t v canSet haveAddr decodingNull)
  note prem = "1.prems" [unfolded indirect_loop.simps [of ctx t v canSet haveAddr decodingNull]]
  show ?case
  proof (cases "interfaceElem t v decodingNull")
    case (Some a)
    obtain et ev where a: "a = (et, ev)" by (cases a)
    from prem Some a
    have "indirect_loop (ctx @ [InIface et]) et ev False False decodingNull = Located c t' v' cs'"
      by simp
    from "1.IH"(2) [OF Some a [symmetric] this] interfaceElem_smaller [OF Some [unfolded a]]
    show ?thesis by simp
  next
    case None
    show ?thesis
    proof (cases "isPtr t")
      case False
      with prem None show ?thesis by simp
    next
      case True
      show ?thesis
      proof (cases v)
        case (VPtr p)
        show ?thesis
        proof (cases "(p = None \<or> \<not> isPtr (Elem t)) \<and> decodingNull \<and> canSet")
          case c1: True
          with prem None True VPtr show ?thesis by simp
        next
          case c1: False
          define x where "x = (case p of None \<Rightarrow> zero (Elem t) | Some x \<Rightarrow> x)"
          define ctx' where "ctx' = (if haveAddr then ctx else ctx @ [InPtr])"
          from prem None True VPtr c1
          have nb: "\<not> (p = None \<and> \<not> canSet)" "\<not> implementsBinaryUnmarshaler t"
            and rec: "indirect_loop ctx' (Elem t) x True False decodingNull = Located c t' v' cs'"
            by (auto simp: x_def ctx'_def Let_def split: if_splits)
          have nn: "\<not> \<not> isPtr t" using True by simp
          have "tsize t' + isize v' \<le> tsize (Elem t) + isize x"
            by (rule "1.IH"(1) [OF None nn VPtr c1 nb(1) x_def ctx'_def nb(2) rec])
          moreover have "isize x \<le> isize v"
            by (simp add: x_def VPtr isize_zero split: option.splits)
          ultimately show ?thesis using tsize_Elem [OF True] by simp
        qed
      qed (use prem None True in simp_all)
    qed
  qed
qed

lemma indirect_measure:
  assumes "indirect t v cs dn = Located c t' v' cs'"
  shows "tsize t' + isize v' \<le> tsize t + isize v"
proof (cases "\<not> isPtr t \<and> TypeName t \<noteq> [] \<and> cs")
  case True
  have "indirect_loop [] (TPtr t) (VPtr (Some v)) False True dn = Located c t' v' cs'"
    using assms True by (simp add: indirect_def)
  then have "indirect_loop [] t v True False dn = Located c t' v' cs'"
    by (subst (asm) indirect_loop.simps)
      (simp add: isPtr_def Elem_def split: if_splits)
  then show ?thesis by (rule indirect_loop_measure)
next
  case False
  then have "indirect_loop [] t v cs False dn = Located c t' v' cs'"
    using assms by (auto simp: indirect_def)
  then show ?thesis by (rule indirect_loop_measure)
qed

lemma decodeBin_optional_measure:
  assumes "decodeBin_optional t v cs opt dec = (Inr (Located c t' v' cs'), dec')"
  shows "tsize t' + isize v' \<le> tsize t + isize v"
proof (cases "indirect t v cs (isOptional opt)")
  case (Override c1 n x)
  with assms show ?thesis
    by (auto simp: decodeBin_optional_def split: if_splits prod.splits sum.splits failure.splits)
next
  case IndirectPanic
  with assms show ?thesis by (simp add: decodeBin_optional_def)
next
  case (Located c1 t1 v1 cs1)
  note m1 = indirect_measure [OF Located]
  show ?thesis
  proof (cases "isOptional opt")
    case False
    with assms Located m1 show ?thesis by (simp add: decodeBin_optional_def)
  next
    case True
    with assms Located obtain c2 where "indirect t1 v1 cs1 False = Located c2 t' v' cs'"
      by (auto simp: decodeBin_optional_def nest_def
          split: if_splits prod.splits sum.splits failure.splits indirect_result.splits)
    from indirect_measure [OF this] m1 show ?thesis by simp
  qed
qed

lemma decodeBin_optional_measure_sym:
  "(Inr (Located c t' v' cs'), dec') = decodeBin_optional t v cs opt dec
     \<Longrightarrow> tsize t' + isize v' \<le> tsize t + isize v"
  using decodeBin_optional_measure [of t v cs opt dec c t' v' cs' dec'] by simp

lemma tsize_underlying_TArray: "underlying t = TArray n et \<Longrightarrow> tsize et < tsize t"
  using tsize_underlying [of t] by simp

lemma tsize_underlying_TSlice: "underlying t = TSlice et \<Longrightarrow> tsize et < tsize t"
  using tsize_underlying [of t] by simp

lemma tsize_underlying_TStruct: "underlying t = TStruct fs \<Longrightarrow> fsizes fs < tsize t"
  using tsize_underlying [of t] by simp

text \<open>
  \<open>decodeBin\<close> and \<open>decodeStruct\<close>, with their loops: \<open>decodeArray_loop\<close> over the
  elements of an array, \<open>decodeSlice_loop\<close> over the elements of a freshly made slice
  (each starts as the zero value of the element type), \<open>decodeStruct_loop\<close> over the
  fields of a record with the table \<open>sizeOfMap\<close> and the flag
  \<open>seenBinaryExtensionField\<close>. \<open>canSet\<close> is \<open>rv.CanSet()\<close>; the values that reach
  \<open>decodeBin\<close> are never read-only, so it is also \<open>rv.CanAddr()\<close>. A field that is not
  exported can be addressed but not set, and its address can not be set either, so the
  loop passes it by. \<open>reflect.MakeSlice\<close> panics on a negative length; running out of
  memory on a large one is not modelled.
\<close>

function decodeBin ::
    "externals \<Rightarrow> rtype \<Rightarrow> val \<Rightarrow> bool \<Rightarrow> option_t option \<Rightarrow> Decoder \<Rightarrow> val result"
  and decodeArray_loop ::
    "externals \<Rightarrow> rtype \<Rightarrow> bool \<Rightarrow> option_t \<Rightarrow> nat \<Rightarrow> nat \<Rightarrow> val list \<Rightarrow> Decoder
       \<Rightarrow> (val list) result"
  and decodeSlice_loop ::
    "externals \<Rightarrow> rtype \<Rightarrow> option_t \<Rightarrow> int \<Rightarrow> int \<Rightarrow> val list \<Rightarrow> Decoder
       \<Rightarrow> (val list) result"
  and decodeStruct ::
    "externals \<Rightarrow> rtype \<Rightarrow> val \<Rightarrow> bool \<Rightarrow> Decoder \<Rightarrow> val result"
  and decodeStruct_loop ::
    "externals \<Rightarrow> StructField list \<Rightarrow> val list \<Rightarrow> bool \<Rightarrow> nat \<Rightarrow> nat
       \<Rightarrow> (string \<rightharpoonup> int) \<Rightarrow> bool \<Rightarrow> Decoder \<Rightarrow> (val list) result"
where
  "decodeBin X t v canSet opt0 dec0 =
     (let opt = (case opt0 of None \<Rightarrow> newDefaultOption X | Some opt \<Rightarrow> opt);
          dec = dec0\<lparr>currentFieldOpt := Some opt\<rparr>
      in case decodeBin_optional t v canSet opt dec of
           (Inl r, dec') \<Rightarrow> (r, dec')
         | (Inr IndirectPanic, dec') \<Rightarrow> (Inl (Panicked ReflectPanic), dec')
         | (Inr (Override ctx name x), dec') \<Rightarrow>
             (case UnmarshalBinary X name x dec' of
                (Inl err, dec'') \<Rightarrow> (Inl err, dec'')
              | (Inr x', dec'') \<Rightarrow> (Inr (plug ctx x'), dec''))
         | (Inr (Located ctx rt rv canSet'), dec') \<Rightarrow>
             (case decodeBin_scalar X rt rv canSet' opt dec' of
                Some (Inl err, dec'') \<Rightarrow> (Inl err, dec'')
              | Some (Inr x, dec'') \<Rightarrow> (Inr (plug ctx x), dec'')
              | None \<Rightarrow>
                  (case underlying rt of
                     TArray len et \<Rightarrow>
                       (case rv of
                          VArray vs \<Rightarrow>
                            (case decodeArray_loop X et canSet' opt 0 len vs dec' of
                               (Inl err, dec'') \<Rightarrow> (Inl err, dec'')
                             | (Inr vs', dec'') \<Rightarrow> (Inr (plug ctx (VArray vs')), dec''))
                        | _ \<Rightarrow> (Inl (Panicked ReflectPanic), dec'))
                   | TSlice et \<Rightarrow>
                       (case decodeBin_sliceLength opt dec' of
                          (Inl err, dec'') \<Rightarrow> (Inl err, dec'')
                        | (Inr l, dec'') \<Rightarrow>
                            if l < 0 then (Inl (Panicked MakeSliceNegative), dec'')
                            else if \<not> canSet' then (Inl (Panicked ReflectPanic), dec'')
                            else
                              (case decodeSlice_loop X et opt 0 l [] dec'' of
                                 (Inl err, dec3) \<Rightarrow> (Inl err, dec3)
                               | (Inr vs', dec3) \<Rightarrow> (Inr (plug ctx (VSlice vs')), dec3)))
                   | TStruct fs \<Rightarrow>
                       (case decodeStruct X rt rv canSet' dec' of
                          (Inl err, dec'') \<Rightarrow> (Inl err, dec'')
                        | (Inr rv', dec'') \<Rightarrow> (Inr (plug ctx rv'), dec''))
                   | _ \<Rightarrow> (Inl (Failed UnsupportedType), dec'))))"
| "decodeArray_loop X et canSet opt i len vs dec =
     (if i < len then
        (if length vs \<le> i then (Inl (Panicked ReflectPanic), dec)
         else
           (case decodeBin X et (vs ! i) canSet (Some opt) dec of
              (Inl err, dec') \<Rightarrow> (Inl err, dec')
            | (Inr x, dec') \<Rightarrow> decodeArray_loop X et canSet opt (i + 1) len (vs[i := x]) dec'))
      else (Inr vs, dec))"
| "decodeSlice_loop X et opt i l vs dec =
     (if i < l then
        (case decodeBin X et (zero et) True (Some opt) dec of
           (Inl err, dec') \<Rightarrow> (Inl err, dec')
         | (Inr x, dec') \<Rightarrow> decodeSlice_loop X et opt (i + 1) l (vs @ [x]) dec')
      else (Inr vs, dec))"
| "decodeStruct X rt rv canSet dec =
     (case underlying rt of
        TStruct fs \<Rightarrow>
          (case rv of
             VStruct vs \<Rightarrow>
               (case decodeStruct_loop X fs vs canSet 0 (length fs) Map.empty False dec of
                  (Inl err, dec') \<Rightarrow> (Inl err, dec')
                | (Inr vs', dec') \<Rightarrow> (Inr (VStruct vs'), dec'))
           | _ \<Rightarrow> (Inl (Panicked ReflectPanic), dec))
      | _ \<Rightarrow> (Inl (Panicked ReflectPanic), dec))"
| "decodeStruct_loop X fs vs canSet i l sizeOfMap seenBinaryExtensionField dec =
     (if i < l then
        (if length fs \<le> i \<or> length vs \<le> i then (Inl (Panicked ReflectPanic), dec)
         else
           (let structField = fs ! i; fieldTag = FieldTag structField in
            if Skip fieldTag then
              decodeStruct_loop X fs vs canSet (i + 1) l sizeOfMap seenBinaryExtensionField dec
            else if \<not> BinaryExtension fieldTag \<and> seenBinaryExtensionField then
              (Inl (Panicked (TagOrderingViolation (FieldName structField))), dec)
            else
              (let seen = (seenBinaryExtensionField \<or> BinaryExtension fieldTag) in
               if BinaryExtension fieldTag \<and> sliceFrom dec = None then
                 (Inl (Panicked BoundsPanic), dec)
               else if BinaryExtension fieldTag \<and> sliceFrom dec = Some [] then
                 decodeStruct_loop X fs vs canSet (i + 1) l sizeOfMap seen dec
               else if \<not> canSet then
                 (Inl (Failed (UnaddressableField (FieldName structField))), dec)
               else if \<not> Exported structField then
                 decodeStruct_loop X fs vs canSet (i + 1) l sizeOfMap seen dec
               else
                 (let option0 = \<lparr>OptionalField = Optional fieldTag, Order = TagOrder fieldTag,
                                  SizeOfSlice = None\<rparr>;
                      option = (case sizeOfMap (FieldName structField) of
                                  Some s \<Rightarrow> setSizeOfSlice option0 s
                                | None \<Rightarrow> option0)
                  in case decodeBin X (FieldType structField) (vs ! i) True (Some option) dec of
                       (Inl err, dec') \<Rightarrow> (Inl err, dec')
                     | (Inr x, dec') \<Rightarrow>
                         if SizeOf fieldTag \<noteq> [] then
                           (case sizeof (FieldType structField) x of
                              Inl p \<Rightarrow> (Inl (Panicked p), dec')
                            | Inr size' \<Rightarrow>
                                decodeStruct_loop X fs (vs[i := x]) canSet (i + 1) l
                                  (sizeOfMap(SizeOf fieldTag \<mapsto> size')) seen dec')
                         else
                           decodeStruct_loop X fs (vs[i := x]) canSet (i + 1) l
                             sizeOfMap seen dec'))))
      else (Inr vs, dec))"
  by pat_completeness auto


termination
  apply (relation "inv_image (less_than <*lex*> less_than)
     (\<lambda>x. case x of
        Inl (Inl (X, t, v, canSet, opt0, dec0)) \<Rightarrow> (tsize t + isize v, 1)
      | Inl (Inr (X, et, canSet, opt, i, len, vs, dec)) \<Rightarrow>
          (tsize et + isizes (drop i vs), 2 + (len - i))
      | Inr (Inl (X, et, opt, i, l, vs, dec)) \<Rightarrow> (tsize et, 2 + nat (l - i))
      | Inr (Inr (Inl (X, rt, rv, canSet, dec))) \<Rightarrow> (tsize rt + isize rv, 0)
      | Inr (Inr (Inr (X, fs, vs, canSet, i, l, m, seen, dec))) \<Rightarrow>
          (fsizes (drop i fs) + isizes (drop i vs), 2 + (l - i)))")
  apply (auto dest!: decodeBin_optional_measure_sym tsize_underlying_TArray
      tsize_underlying_TSlice tsize_underlying_TStruct
      simp: isize_zero isizes_drop fsizes_drop drop_update_cancel)
  done


declare decodeBin.simps [simp del] decodeArray_loop.simps [simp del]
  decodeSlice_loop.simps [simp del] decodeStruct.simps [simp del]
  decodeStruct_loop.simps [simp del]

text \<open>
  \<open>decodeWithOptionBin\<close>: the destination must be a pointer; \<open>reflect.ValueOf(v)\<close> can
  not be set.
\<close>

definition decodeWithOptionBin ::
  "externals \<Rightarrow> rtype \<Rightarrow> val \<Rightarrow> option_t option \<Rightarrow> Decoder \<Rightarrow> val result" where
  "decodeWithOptionBin X t v option dec =
     (if \<not> isPtr t then (Inl (Failed InvalidDecoderError), dec)
      else decodeBin X t v False option dec)"

text \<open>\<open>Decode\<close>: the entry point, which selects the algorithm of the session's mode.\<close>

definition Decode :: "externals \<Rightarrow> rtype \<Rightarrow> val \<Rightarrow> Decoder \<Rightarrow> val result" where
  "Decode X t v dec =
     (case encoding dec of
        EncodingBin \<Rightarrow> decodeWithOptionBin X t v None dec
      | EncodingBorsh \<Rightarrow> decodeWithOptionBorsh X t v None dec
      | EncodingCompactU16 \<Rightarrow> decodeWithOptionCompactU16 X t v None dec)"

text \<open>
  The session constructors. \<open>isValidEncoding\<close> holds of the three encodings, so
  \<open>NewDecoderWithEncoding\<close> does not panic on them.
\<close>

definition NewDecoderWithEncoding :: "byte list \<Rightarrow> Encoding \<Rightarrow> Decoder" where
  "NewDecoderWithEncoding bs enc = \<lparr>data = bs, pos = 0, currentFieldOpt = None, encoding = enc\<rparr>"

definition NewBinDecoder :: "byte list \<Rightarrow> Decoder" where
  "NewBinDecoder bs = NewDecoderWithEncoding bs EncodingBin"

definition NewBorshDecoder :: "byte list \<Rightarrow> Decoder" where
  "NewBorshDecoder bs = NewDecoderWithEncoding bs EncodingBorsh"

definition NewCompactU16Decoder :: "byte list \<Rightarrow> Decoder" where
  "NewCompactU16Decoder bs = NewDecoderWithEncoding bs EncodingCompactU16"

text \<open>
  The directive that \<open>decodeStruct\<close> builds for a field: \<open>OptionalField\<close> and \<open>Order\<close> from
  the tag, and the linked size recorded under the field's name, if any.
\<close>

definition fieldOption :: "(string \<rightharpoonup> int) \<Rightarrow> StructField \<Rightarrow> option_t" where
  "fieldOption sizeOfMap structField =
     \<lparr>OptionalField = Optional (FieldTag structField), Order = TagOrder (FieldTag structField),
      SizeOfSlice = sizeOfMap (FieldName structField)\<rparr>"


text \<open>
  The table update that follows the decode of a field, in closed form: the size of the
  decoded value is recorded under the tag's \<open>sizeof\<close> target, when the tag has one.
\<close>

definition recordSize :: "(string \<rightharpoonup> int) \<Rightarrow> StructField \<Rightarrow> val \<Rightarrow> panic + (string \<rightharpoonup> int)" where
  "recordSize sizeOfMap structField x =
     (if SizeOf (FieldTag structField) \<noteq> [] then
        (case sizeof (FieldType structField) x of
           Inl p \<Rightarrow> Inl p
         | Inr size' \<Rightarrow> Inr (sizeOfMap(SizeOf (FieldTag structField) \<mapsto> size')))
      else Inr sizeOfMap)"

text \<open>
  Two results that agree in everything but the session's \<open>currentFieldOpt\<close>, a field
  that the decoder writes and never reads; \<open>withOpt\<close> overwrites the field in a result.
\<close>

definition withOpt :: "option_t option \<Rightarrow> 'a result \<Rightarrow> 'a result" where
  "withOpt c r = (fst r, (snd r)\<lparr>currentFieldOpt := c\<rparr>)"

definition sameUpToOpt :: "'a result \<Rightarrow> 'a result \<Rightarrow> bool" where
  "sameUpToOpt r r' =
     (fst r = fst r' \<and> (snd r)\<lparr>currentFieldOpt := None\<rparr> = (snd r')\<lparr>currentFieldOpt := None\<rparr>)"

section \<open>Inputs used in the examples\<close>

text \<open>
  Collaborators that always fail (no example below reaches them), the tag of an
  untagged field and of a \<open>binary_extension\<close> field, and two record types:
  \<open>LenItems\<close> is \<open>struct { Len T `sizeof=Items`; Items []byte }\<close>, \<open>ExtFirst\<close> is
  \<open>struct { A uint32 `binary_extension`; B uint8 }\<close>, \<open>WithExtensions\<close> is
  \<open>struct { A uint8; B uint16 `binary_extension`; C uint8 `binary_extension` }\<close>.
\<close>

definition noExternals :: externals where
  "noExternals =
     \<lparr>defaultByteOrder = LittleEndian,
      DecodeCompactU16LengthFromByteReader = (\<lambda>dec. (Inl (Failed (ExternalError 0)), dec)),
      UnmarshalBinary = (\<lambda>name v dec. (Inl (Failed (ExternalError 1)), dec)),
      decodeWithOptionBorsh = (\<lambda>t v option dec. (Inl (Failed (ExternalError 2)), dec)),
      decodeWithOptionCompactU16 = (\<lambda>t v option dec. (Inl (Failed (ExternalError 3)), dec))\<rparr>"


definition plainTag :: "ByteOrder \<Rightarrow> fieldTag" where
  "plainTag order =
     \<lparr>SizeOf = [], Skip = False, TagOrder = order, Optional = False, BinaryExtension = False\<rparr>"


definition extTag :: "ByteOrder \<Rightarrow> fieldTag" where
  "extTag order = (plainTag order)\<lparr>BinaryExtension := True\<rparr>"


definition LenItems :: "rtype \<Rightarrow> ByteOrder \<Rightarrow> rtype" where
  "LenItems lenType order =
     TDefined ''LenItems''
       (TStruct [StructField ''Len'' ((plainTag order)\<lparr>SizeOf := ''Items''\<rparr>) True lenType,
                 StructField ''Items'' (plainTag order) True (TSlice TUint8)]) False"


definition ExtFirst :: rtype where
  "ExtFirst =
     TDefined ''ExtFirst''
       (TStruct [StructField ''A'' (extTag LittleEndian) True TUint32,
                 StructField ''B'' (plainTag LittleEndian) True TUint8]) False"


definition WithExtensions :: rtype where
  "WithExtensions =
     TDefined ''WithExtensions''
       (TStruct [StructField ''A'' (plainTag LittleEndian) True TUint8,
                 StructField ''B'' (extTag LittleEndian) True TUint16,
                 StructField ''C'' (extTag LittleEndian) True TUint8]) False"

text \<open>
  Collaborators with an override that reads one byte from the session and returns it
  as the new value.
\<close>

definition readsOneByte :: externals where
  "readsOneByte =
     noExternals\<lparr>UnmarshalBinary :=
       (\<lambda>name v dec. case ReadByte dec of
                        (Inl err, dec') \<Rightarrow> (Inl err, dec')
                      | (Inr b, dec') \<Rightarrow> (Inr (VUint (ucast b)), dec'))\<rparr>"

text \<open>The directive of a field tagged \<open>optional\<close>.\<close>

definition optionalTag :: "ByteOrder \<Rightarrow> option_t" where
  "optionalTag order = \<lparr>OptionalField = True, Order = order, SizeOfSlice = None\<rparr>"

section \<open>Properties of the primitive reader\<close>

lemma Remaining_in_range:
  "0 \<le> pos dec \<Longrightarrow> pos dec \<le> int (length (data dec)) \<Longrightarrow> length (data dec) < 2 ^ 63
     \<Longrightarrow> Remaining dec = int (length (data dec)) - pos dec"
  unfolding Remaining_def int64_def
  by (rule signed_take_bit_int_eq_self) auto

lemma ReadByte_truncated:
  "Remaining dec < 1 \<Longrightarrow> ReadByte dec = (Inl (Failed (TruncatedInput 1 (Remaining dec))), dec)"
  by (simp add: ReadByte_def)

lemma ReadBool_truncated:
  "Remaining dec < 1 \<Longrightarrow> ReadBool dec = (Inl (Failed (TruncatedInput 1 (Remaining dec))), dec)"
  by (simp add: ReadBool_def)

lemma ReadUint16_truncated:
  "Remaining dec < 2 \<Longrightarrow> ReadUint16 dec order = (Inl (Failed (TruncatedInput 2 (Remaining dec))), dec)"
  by (simp add: ReadUint16_def)

lemma ReadUint32_truncated:
  "Remaining dec < 4 \<Longrightarrow> ReadUint32 dec order = (Inl (Failed (TruncatedInput 4 (Remaining dec))), dec)"
  by (simp add: ReadUint32_def)

lemma ReadUint64_truncated:
  "Remaining dec < 8 \<Longrightarrow> ReadUint64 dec order = (Inl (Failed (TruncatedInput 8 (Remaining dec))), dec)"
  by (simp add: ReadUint64_def)

lemma ReadFloat32_truncated:
  "Remaining dec < 4 \<Longrightarrow> ReadFloat32 dec order = (Inl (Failed (TruncatedInput 4 (Remaining dec))), dec)"
  by (simp add: ReadFloat32_def)

lemma ReadFloat64_truncated:
  "Remaining dec < 8 \<Longrightarrow> ReadFloat64 dec order = (Inl (Failed (TruncatedInput 8 (Remaining dec))), dec)"
  by (simp add: ReadFloat64_def)

text \<open>
  Claim C1 (a failed read leaves the cursor unmoved and reports the required and the
  available byte counts). The byte and fixed-width reads check \<open>Remaining\<close> first, as
  the lemmas above show. \<open>ReadNBytes\<close> does not: asked for 3 bytes of a 2-byte buffer it
  consumes both bytes, then fails inside \<open>ReadByte\<close>, reporting 1 byte required and 0
  remaining, with the cursor at 2.
\<close>

theorem ReadNBytes_short_buffer_moves_cursor:
  "ReadNBytes \<lparr>data = [1, 2], pos = 0, currentFieldOpt = None, encoding = EncodingBin\<rparr> 3
     = (Inl (Failed (TruncatedInput 1 0)),
        \<lparr>data = [1, 2], pos = 2, currentFieldOpt = None, encoding = EncodingBin\<rparr>)"
  by (simp add: ReadNBytes_def readNBytes_def readNBytes_loop.simps ReadByte_def
      Remaining_def int64_def)

text \<open>
  Claim C9 (\<open>SetPosition\<close> succeeds for every index up to and including the buffer
  length). The guard of the code is \<open>int(idx) < len(dec.data)\<close>: on a 3-byte buffer
  \<open>SetPosition(3)\<close> is refused, although position 3 is where a complete read of the
  buffer leaves the cursor.
\<close>

theorem SetPosition_at_buffer_length_fails:
  "SetPosition \<lparr>data = [1, 2, 3], pos = 0, currentFieldOpt = None, encoding = EncodingBin\<rparr> 3
     = (Inl (Failed (PositionOutsideBuffer 3 3)),
        \<lparr>data = [1, 2, 3], pos = 0, currentFieldOpt = None, encoding = EncodingBin\<rparr>)"
  by (simp add: SetPosition_def)

lemma SetPosition_succeeds_iff:
  "fst (SetPosition dec idx) = Inr () \<longleftrightarrow> sint idx < int (length (data dec))"
  by (simp add: SetPosition_def)

lemma SetPosition_wraps_negative:
  "SetPosition \<lparr>data = [1, 2, 3], pos = 0, currentFieldOpt = None, encoding = EncodingBin\<rparr>
      0x8000000000000000
     = (Inr (), \<lparr>data = [1, 2, 3], pos = - 9223372036854775808, currentFieldOpt = None,
                  encoding = EncodingBin\<rparr>)"
  by (simp add: SetPosition_def)

text \<open>
  Claim C6 (NaN is rejected in Borsh mode only). Whenever at least 4 (resp. 8) bytes remain
  and their bits, in the given byte order, form an IEEE NaN, \<open>ReadFloat32\<close>
  (resp. \<open>ReadFloat64\<close>) fails with \<open>DisallowedNaN\<close> if the session is Borsh, and in the
  two other modes succeeds and returns that NaN pattern.
\<close>

theorem ReadFloat_NaN_rejected_only_in_Borsh:
  assumes "0 \<le> pos dec" and "length (data dec) < 2 ^ 63"
  shows "(pos dec + 4 \<le> int (length (data dec))
            \<and> Uint32 order (drop (nat (pos dec)) (data dec)) = Some n \<and> IsNaN32 n
          \<longrightarrow> fst (ReadFloat32 dec order)
                = (if encoding dec = EncodingBorsh then Inl (Failed DisallowedNaN) else Inr n))
       \<and> (pos dec + 8 \<le> int (length (data dec))
            \<and> Uint64 order (drop (nat (pos dec)) (data dec)) = Some m \<and> IsNaN64 m
          \<longrightarrow> fst (ReadFloat64 dec order)
                = (if encoding dec = EncodingBorsh then Inl (Failed DisallowedNaN) else Inr m))"
  using assms
  by (simp add: ReadFloat32_def ReadFloat64_def Remaining_in_range sliceFrom_def IsBorsh_def)

theorem ReadFloat_NaN_rejected_only_in_Borsh_witness:
  "(\<forall>enc. fst (ReadFloat32 \<lparr>data = [1, 0, 0xC0, 0x7F, 1, 0, 0xF8, 0x7F], pos = 0,
                   currentFieldOpt = None, encoding = enc\<rparr> LittleEndian)
      = (if enc = EncodingBorsh then Inl (Failed DisallowedNaN) else Inr 0x7FC00001))
   \<and> (\<forall>enc. fst (ReadFloat64 \<lparr>data = [1, 0, 0xC0, 0x7F, 1, 0, 0xF8, 0x7F], pos = 0,
                   currentFieldOpt = None, encoding = enc\<rparr> LittleEndian)
      = (if enc = EncodingBorsh then Inl (Failed DisallowedNaN) else Inr 0x7FF800017FC00001))
   \<and> IsNaN32 0x7FC00001 \<and> IsNaN64 0x7FF800017FC00001"
proof -
  have "fst (ReadFloat32 \<lparr>data = [1, 0, 0xC0, 0x7F, 1, 0, 0xF8, 0x7F], pos = 0,
                   currentFieldOpt = None, encoding = enc\<rparr> LittleEndian)
      = (if enc = EncodingBorsh then Inl (Failed DisallowedNaN) else Inr 0x7FC00001)
    \<and> fst (ReadFloat64 \<lparr>data = [1, 0, 0xC0, 0x7F, 1, 0, 0xF8, 0x7F], pos = 0,
                   currentFieldOpt = None, encoding = enc\<rparr> LittleEndian)
      = (if enc = EncodingBorsh then Inl (Failed DisallowedNaN) else Inr 0x7FF800017FC00001)
    \<and> IsNaN32 0x7FC00001 \<and> IsNaN64 0x7FF800017FC00001" for enc
    using ReadFloat_NaN_rejected_only_in_Borsh
      [of "\<lparr>data = [1, 0, 0xC0, 0x7F, 1, 0, 0xF8, 0x7F], pos = 0,
            currentFieldOpt = None, encoding = enc\<rparr>" LittleEndian "0x7FC00001" "0x7FF800017FC00001"]
    by (simp add: Uint32_def Uint64_def order_bytes_def le_bytes_def IsNaN32_def IsNaN64_def)
  then show ?thesis by blast
qed

text \<open>
  Claim C10 (the NaN error is not atomic for the cursor). In Borsh mode, when the 4
  (resp. 8) bytes at the cursor form a NaN, the call returns \<open>DisallowedNaN\<close> and the
  decoder it leaves behind has its position advanced by 4 (resp. 8).
\<close>

theorem ReadFloat_NaN_error_keeps_advanced_cursor:
  assumes "encoding dec = EncodingBorsh" and "0 \<le> pos dec" and "length (data dec) < 2 ^ 63"
  shows "(pos dec + 4 \<le> int (length (data dec))
            \<and> Uint32 order (drop (nat (pos dec)) (data dec)) = Some n \<and> IsNaN32 n
          \<longrightarrow> ReadFloat32 dec order = (Inl (Failed DisallowedNaN), dec\<lparr>pos := pos dec + 4\<rparr>))
       \<and> (pos dec + 8 \<le> int (length (data dec))
            \<and> Uint64 order (drop (nat (pos dec)) (data dec)) = Some m \<and> IsNaN64 m
          \<longrightarrow> ReadFloat64 dec order = (Inl (Failed DisallowedNaN), dec\<lparr>pos := pos dec + 8\<rparr>))"
  using assms
  by (simp add: ReadFloat32_def ReadFloat64_def Remaining_in_range sliceFrom_def IsBorsh_def)

theorem ReadFloat_NaN_error_keeps_advanced_cursor_witness:
  "ReadFloat32 \<lparr>data = [0x7F, 0xF8, 0, 0, 0, 0, 0, 1], pos = 0,
                   currentFieldOpt = None, encoding = EncodingBorsh\<rparr> BigEndian
      = (Inl (Failed DisallowedNaN), \<lparr>data = [0x7F, 0xF8, 0, 0, 0, 0, 0, 1], pos = 4,
                   currentFieldOpt = None, encoding = EncodingBorsh\<rparr>)
   \<and> ReadFloat64 \<lparr>data = [0x7F, 0xF8, 0, 0, 0, 0, 0, 1], pos = 0,
                   currentFieldOpt = None, encoding = EncodingBorsh\<rparr> BigEndian
      = (Inl (Failed DisallowedNaN), \<lparr>data = [0x7F, 0xF8, 0, 0, 0, 0, 0, 1], pos = 8,
                   currentFieldOpt = None, encoding = EncodingBorsh\<rparr>)"
  using ReadFloat_NaN_error_keeps_advanced_cursor
      [of "\<lparr>data = [0x7F, 0xF8, 0, 0, 0, 0, 0, 1], pos = 0,
            currentFieldOpt = None, encoding = EncodingBorsh\<rparr>" BigEndian "0x7FF80000" "0x7FF8000000000001"]
  by (simp add: Uint32_def Uint64_def order_bytes_def be_bytes_def IsNaN32_def IsNaN64_def)

section \<open>Properties of the decode engine\<close>

lemma replicate_numeral: "replicate (numeral k) x = x # replicate (pred_numeral k) x"
  by (simp add: numeral_eq_Suc)


lemmas eval_defs =
  noExternals_def plainTag_def extTag_def NewBinDecoder_def NewDecoderWithEncoding_def
  LenItems_def ExtFirst_def fieldOption_def
  Decode_def decodeWithOptionBin_def isPtr_def isInterface_def Elem_def
  decodeBin.simps decodeStruct.simps decodeStruct_loop.simps decodeSlice_loop.simps
  decodeArray_loop.simps decodeBin_optional_def indirect_def indirect_loop.simps nest_def
  isOptional_def newDefaultOption_def decodeBin_scalar_def setValue_def
  decodeBin_sliceLength_def sizeof_def setSizeOfSlice_def
  ReadString_def ReadByteSlice_def ReadLength_def ReadUvarint64_def Uvarint_def
  ReadBool_def ReadInt8_def ReadInt16_def ReadInt32_def ReadInt64_def
  ReadUint16_def ReadUint32_def ReadUint64_def ReadNBytes_def readNBytes_def
  readNBytes_loop.simps ReadFloat32_def ReadFloat64_def ReadByte_def
  Remaining_def int64_def sliceFrom_def Uint16_def Uint32_def Uint64_def
  order_bytes_def le_bytes_def be_bytes_def IsBorsh_def Let_def replicate_numeral


text \<open>
  Claim C2, as stated (the record \<open>{ Len uint32 `sizeof=Items`; Items []byte }\<close>
  decodes from the 4 bytes \<open>03 41 42 43\<close> to \<open>Len = 3\<close> and three items). It does not:
  \<open>Len\<close> is a \<open>uint32\<close> and takes all four bytes, in either byte order, so the linked
  size is \<open>0x43424103\<close> or \<open>0x03414243\<close> and the first item finds no byte left.
\<close>

theorem sizeof_example_fails_on_four_bytes:
  "fst (Decode noExternals (TPtr (LenItems TUint32 LittleEndian))
          (VPtr (Some (VStruct [VUint 0, VSlice []])))
          (NewBinDecoder [0x03, 0x41, 0x42, 0x43]))
     = Inl (Failed (TruncatedInput 1 0))
   \<and> fst (Decode noExternals (TPtr (LenItems TUint32 BigEndian))
          (VPtr (Some (VStruct [VUint 0, VSlice []])))
          (NewBinDecoder [0x03, 0x41, 0x42, 0x43]))
     = Inl (Failed (TruncatedInput 1 0))"
  by (simp add: eval_defs)


text \<open>
  Claim C2, amended: from the 7 bytes \<open>03 00 00 00 41 42 43\<close> (little-endian \<open>Len\<close>) the
  decode succeeds with \<open>Len = 3\<close> and \<open>Items = [41, 42, 43]\<close> at final position 7. The 4
  bytes of \<open>Len\<close> and the 3 items are all that is consumed: the element count is the
  linked size, and no length is read from the stream.
\<close>

theorem sizeof_example_seven_bytes:
  "Decode X (TPtr (LenItems TUint32 LittleEndian))
      (VPtr (Some (VStruct [VUint 0, VSlice []])))
      (NewBinDecoder [0x03, 0x00, 0x00, 0x00, 0x41, 0x42, 0x43])
     = (Inr (VPtr (Some (VStruct [VUint 3, VSlice [VUint 0x41, VUint 0x42, VUint 0x43]]))),
        \<lparr>data = [0x03, 0x00, 0x00, 0x00, 0x41, 0x42, 0x43], pos = 7,
           currentFieldOpt = Some \<lparr>OptionalField = False, Order = LittleEndian,
                                   SizeOfSlice = Some 3\<rparr>,
           encoding = EncodingBin\<rparr>)"
  by (simp add: eval_defs)


text \<open>
  Claim C8, as stated (the recorded size equals \<open>v\<close> whenever \<open>v\<close> is not negative). An
  unsigned 64-bit \<open>v = 2^63\<close> is not negative, yet \<open>int(v.Uint())\<close> is, and the guard
  records 0: the record below decodes with an empty \<open>Items\<close> and stops after the 8 bytes
  of \<open>Len\<close>.
\<close>

theorem sizeof_uint64_top_bit_counterexample:
  "sizeof TUint64 (VUint 0x8000000000000000) = Inr 0
   \<and> Decode noExternals (TPtr (LenItems TUint64 LittleEndian))
        (VPtr (Some (VStruct [VUint 0, VSlice []])))
        (NewBinDecoder [0, 0, 0, 0, 0, 0, 0, 0x80, 0x41, 0x42, 0x43])
     = (Inr (VPtr (Some (VStruct [VUint 0x8000000000000000, VSlice []]))),
        \<lparr>data = [0, 0, 0, 0, 0, 0, 0, 0x80, 0x41, 0x42, 0x43], pos = 8,
           currentFieldOpt = Some \<lparr>OptionalField = False, Order = LittleEndian,
                                   SizeOfSlice = Some 0\<rparr>,
           encoding = EncodingBin\<rparr>)"
  by (simp add: eval_defs)



lemma sint_64: "sint (w :: 64 word) = signed_take_bit 63 (uint w)"
  by (simp add: sint_uint)


lemma sint_64_small:
  assumes "uint (w :: 64 word) < 2 ^ 63"
  shows "sint w = uint w"
proof -
  have "(0::int) \<le> uint w" by simp
  moreover have "- (2 ^ 63) \<le> (0::int)" by simp
  ultimately have "- (2 ^ 63) \<le> uint w" by (rule order_trans [rotated])
  then have "signed_take_bit 63 (uint w) = uint w"
    using assms by (rule signed_take_bit_int_eq_self)
  then show ?thesis by (simp only: sint_64)
qed


lemma sint_64_big:
  assumes "2 ^ 63 \<le> uint (w :: 64 word)"
  shows "sint w < 0"
proof -
  have "signed_take_bit 63 (uint w) \<le> uint w - 2 ^ Suc 63"
    using assms by (rule signed_take_bit_int_less_eq)
  moreover have "uint w < 2 ^ Suc 63" using uint_lt2p [of w] by simp
  ultimately have "signed_take_bit 63 (uint w) < 0" by linarith
  then show ?thesis by (simp only: sint_64)
qed


lemma decodeStruct_loop_field:
  assumes "i < l" "i < length fs" "i < length vs"
    and "\<not> Skip (FieldTag (fs ! i))"
    and "\<not> BinaryExtension (FieldTag (fs ! i)) \<longrightarrow> \<not> seen"
    and "BinaryExtension (FieldTag (fs ! i)) \<longrightarrow> 0 \<le> pos dec \<and> pos dec < int (length (data dec))"
    and "Exported (fs ! i)"
  shows "decodeStruct_loop X fs vs True i l m seen dec =
     (case decodeBin X (FieldType (fs ! i)) (vs ! i) True (Some (fieldOption m (fs ! i))) dec of
        (Inl err, dec') \<Rightarrow> (Inl err, dec')
      | (Inr x, dec') \<Rightarrow>
          if SizeOf (FieldTag (fs ! i)) \<noteq> [] then
            (case sizeof (FieldType (fs ! i)) x of
               Inl p \<Rightarrow> (Inl (Panicked p), dec')
             | Inr size' \<Rightarrow>
                 decodeStruct_loop X fs (vs[i := x]) True (i + 1) l
                   (m(SizeOf (FieldTag (fs ! i)) \<mapsto> size'))
                   (seen \<or> BinaryExtension (FieldTag (fs ! i))) dec')
          else decodeStruct_loop X fs (vs[i := x]) True (i + 1) l m
                 (seen \<or> BinaryExtension (FieldTag (fs ! i))) dec')"
proof -
  have opt: "(case m (FieldName (fs ! i)) of
        None \<Rightarrow> \<lparr>OptionalField = Optional (FieldTag (fs ! i)), Order = TagOrder (FieldTag (fs ! i)),
                  SizeOfSlice = None\<rparr>
      | Some s \<Rightarrow> setSizeOfSlice \<lparr>OptionalField = Optional (FieldTag (fs ! i)),
                  Order = TagOrder (FieldTag (fs ! i)), SizeOfSlice = None\<rparr> s)
      = fieldOption m (fs ! i)"
    by (simp add: fieldOption_def setSizeOfSlice_def split: option.splits)
  show ?thesis
    using assms
    by (subst decodeStruct_loop.simps) (auto simp: Let_def opt sliceFrom_def)
qed



lemma sizeof_unsigned:
  "underlying t \<in> {TUint, TUint8, TUint16, TUint32, TUint64}
     \<Longrightarrow> sizeof t (VUint w) = Inr (if uint w < 2 ^ 63 then uint w else 0)"
  using sint_64_small [of w] sint_64_big [of w]
  by (auto simp: sizeof_def Let_def)


lemma sizeof_signed:
  "underlying t \<in> {TInt, TInt8, TInt16, TInt32, TInt64} \<Longrightarrow> sizeof t (VInt w) = Inr (sint w)"
  by (auto simp: sizeof_def)


text \<open>
  Claim C8, amended: when the field at index \<open>i\<close> is tagged as the size source of
  another field and has been decoded to \<open>x\<close>, the loop goes on with the table updated
  at the tag's target. For an unsigned kind the size is \<open>v\<close> when \<open>v < 2^63\<close> and 0
  otherwise; for a signed kind and \<open>v\<close> not negative it is \<open>v\<close>.
\<close>

theorem sizeof_linkage_recorded:
  assumes "i < l" and "i < length fs" and "i < length vs"
    and "\<not> Skip (FieldTag (fs ! i))" and "\<not> BinaryExtension (FieldTag (fs ! i))"
    and "Exported (fs ! i)" and "SizeOf (FieldTag (fs ! i)) \<noteq> []"
    and "decodeBin X (FieldType (fs ! i)) (vs ! i) True (Some (fieldOption m (fs ! i))) dec
           = (Inr x, dec')"
  shows "(underlying (FieldType (fs ! i)) \<in> {TUint, TUint8, TUint16, TUint32, TUint64}
            \<and> x = VUint w
          \<longrightarrow> decodeStruct_loop X fs vs True i l m False dec
                = decodeStruct_loop X fs (vs[i := x]) True (i + 1) l
                    (m(SizeOf (FieldTag (fs ! i)) \<mapsto> (if uint w < 2 ^ 63 then uint w else 0)))
                    False dec')
       \<and> (underlying (FieldType (fs ! i)) \<in> {TInt, TInt8, TInt16, TInt32, TInt64}
            \<and> x = VInt w \<and> 0 \<le> sint w
          \<longrightarrow> decodeStruct_loop X fs vs True i l m False dec
                = decodeStruct_loop X fs (vs[i := x]) True (i + 1) l
                    (m(SizeOf (FieldTag (fs ! i)) \<mapsto> sint w)) False dec')"
proof -
  have step: "decodeStruct_loop X fs vs True i l m False dec =
      (case sizeof (FieldType (fs ! i)) x of
         Inl p \<Rightarrow> (Inl (Panicked p), dec')
       | Inr size' \<Rightarrow>
           decodeStruct_loop X fs (vs[i := x]) True (i + 1) l
             (m(SizeOf (FieldTag (fs ! i)) \<mapsto> size')) False dec')"
    using assms by (simp add: decodeStruct_loop_field split: sum.splits)
  show ?thesis
    by (intro conjI impI; elim conjE) (simp_all only: step sizeof_unsigned sizeof_signed sum.case)
qed


lemma sizeof_signed_negative:
  "sizeof TInt32 (VInt (- 1)) = Inr (- 1)"
  by (simp add: sizeof_def)



text \<open>
  Claim C5, as stated (a record \<open>[A(ext), B]\<close> fails with \<open>TagOrderingViolation\<close>
  before any byte is read, whatever the buffer holds). The order of the tags is checked
  field by field inside the decode loop, after the earlier fields have been decoded: on
  a 2-byte buffer the decode of \<open>A\<close> fails first, with an ordinary truncation error and
  no panic; on a 5-byte buffer the panic comes with the cursor at 4, after \<open>A\<close>.
\<close>

theorem tag_ordering_depends_on_buffer:
  "Decode noExternals (TPtr ExtFirst) (VPtr (Some (VStruct [VUint 0, VUint 0])))
      (NewBinDecoder [0x01, 0x02])
     = (Inl (Failed (TruncatedInput 4 2)),
        \<lparr>data = [0x01, 0x02], pos = 0,
           currentFieldOpt = Some \<lparr>OptionalField = False, Order = LittleEndian,
                                   SizeOfSlice = None\<rparr>,
           encoding = EncodingBin\<rparr>)
   \<and> Decode noExternals (TPtr ExtFirst) (VPtr (Some (VStruct [VUint 0, VUint 0])))
      (NewBinDecoder [0x01, 0x02, 0x03, 0x04, 0x09])
     = (Inl (Panicked (TagOrderingViolation ''B'')),
        \<lparr>data = [0x01, 0x02, 0x03, 0x04, 0x09], pos = 4,
           currentFieldOpt = Some \<lparr>OptionalField = False, Order = LittleEndian,
                                   SizeOfSlice = None\<rparr>,
           encoding = EncodingBin\<rparr>)"
  by (simp add: eval_defs)


lemma decodeStruct_loop_skip_extension:
  assumes "i < l" "i < length fs" "i < length vs"
    and "BinaryExtension (FieldTag (fs ! i))"
    and "0 \<le> pos dec" "pos dec = int (length (data dec))"
  shows "decodeStruct_loop X fs vs cs i l m seen dec =
           decodeStruct_loop X fs vs cs (i + 1) l m (Skip (FieldTag (fs ! i)) \<and> seen \<or> \<not> Skip (FieldTag (fs ! i))) dec"
  using assms
  by (subst decodeStruct_loop.simps) (auto simp: Let_def sliceFrom_def)


lemma decodeStruct_loop_violation:
  assumes "i < l" "i < length fs" "i < length vs"
    and "\<not> Skip (FieldTag (fs ! i))" "\<not> BinaryExtension (FieldTag (fs ! i))"
  shows "decodeStruct_loop X fs vs cs i l m True dec =
           (Inl (Panicked (TagOrderingViolation (FieldName (fs ! i)))), dec)"
  using assms
  by (subst decodeStruct_loop.simps) (auto simp: Let_def)


lemma decodeStruct_loop_end: "decodeStruct_loop X fs vs cs l l m seen dec = (Inr vs, dec)"
  by (subst decodeStruct_loop.simps) simp


lemma decodeStruct_fields:
  "underlying rt = TStruct fs \<Longrightarrow> l = length fs \<Longrightarrow>
   decodeStruct X rt (VStruct vs) cs dec =
     (case decodeStruct_loop X fs vs cs 0 l Map.empty False dec of
        (Inl err, dec') \<Rightarrow> (Inl err, dec')
      | (Inr vs', dec') \<Rightarrow> (Inr (VStruct vs'), dec'))"
  by (simp add: decodeStruct.simps)


lemma decodeStruct_extension_then_plain:
  assumes "underlying rt = TStruct [A, B]"
    and "\<not> Skip (FieldTag A)" and "BinaryExtension (FieldTag A)" and "Exported A"
    and "\<not> Skip (FieldTag B)" and "\<not> BinaryExtension (FieldTag B)"
    and "0 \<le> pos dec" and "pos dec \<le> int (length (data dec))"
  shows "decodeStruct X rt (VStruct [a, b]) True dec =
     (if pos dec = int (length (data dec))
      then (Inl (Panicked (TagOrderingViolation (FieldName B))), dec)
      else case decodeBin X (FieldType A) a True (Some (fieldOption Map.empty A)) dec of
             (Inl err, dec') \<Rightarrow> (Inl err, dec')
           | (Inr x, dec') \<Rightarrow>
               (case (if SizeOf (FieldTag A) \<noteq> [] then sizeof (FieldType A) x else Inr 0) of
                  Inl p \<Rightarrow> (Inl (Panicked p), dec')
                | Inr n \<Rightarrow> (Inl (Panicked (TagOrderingViolation (FieldName B))), dec')))"
proof (cases "pos dec = int (length (data dec))")
  case True
  have "decodeStruct_loop X [A, B] [a, b] True 0 2 Map.empty False dec
          = decodeStruct_loop X [A, B] [a, b] True 1 2 Map.empty True dec"
    using decodeStruct_loop_skip_extension [where i = 0 and l = 2 and fs = "[A, B]"
        and vs = "[a, b]" and dec = dec and X = X and cs = True and m = Map.empty and seen = False]
      assms True by simp
  also have "\<dots> = (Inl (Panicked (TagOrderingViolation (FieldName B))), dec)"
    using decodeStruct_loop_violation [where i = 1 and l = 2 and fs = "[A, B]"
        and vs = "[a, b]" and dec = dec and X = X and cs = True and m = Map.empty] assms
    by simp
  finally have "decodeStruct_loop X [A, B] [a, b] True 0 2 Map.empty False dec
          = (Inl (Panicked (TagOrderingViolation (FieldName B))), dec)" .
  then show ?thesis using True
    by (subst decodeStruct_fields [OF assms(1), of 2]) simp_all
next
  case False
  have viol: "decodeStruct_loop X [A, B] vs' True (Suc 0) 2 m' True d
          = (Inl (Panicked (TagOrderingViolation (FieldName B))), d)"
    if "length vs' = 2" for vs' m' d
    using decodeStruct_loop_violation [where i = "Suc 0" and l = 2 and fs = "[A, B]"
        and vs = vs' and dec = d and X = X and cs = True and m = m'] assms that by simp
  have "decodeStruct_loop X [A, B] [a, b] True 0 2 Map.empty False dec =
     (case decodeBin X (FieldType A) a True (Some (fieldOption Map.empty A)) dec of
        (Inl err, dec') \<Rightarrow> (Inl err, dec')
      | (Inr x, dec') \<Rightarrow>
          (case (if SizeOf (FieldTag A) \<noteq> [] then sizeof (FieldType A) x else Inr 0) of
             Inl p \<Rightarrow> (Inl (Panicked p), dec')
           | Inr n \<Rightarrow> (Inl (Panicked (TagOrderingViolation (FieldName B))), dec')))"
    using decodeStruct_loop_field [where i = 0 and l = 2 and fs = "[A, B]"
        and vs = "[a, b]" and dec = dec and X = X and m = Map.empty and seen = False] assms False
    by (simp add: viol split: prod.splits sum.splits)
  then show ?thesis using False
    by (subst decodeStruct_fields [OF assms(1), of 2])
      (simp_all split: prod.splits sum.splits)
qed



lemma decodeStruct_loop_unexported:
  assumes "i < l" "i < length fs" "i < length vs"
    and "\<not> Skip (FieldTag (fs ! i))" and "BinaryExtension (FieldTag (fs ! i))"
    and "\<not> Exported (fs ! i)"
    and "0 \<le> pos dec" "pos dec < int (length (data dec))"
  shows "decodeStruct_loop X fs vs True i l m seen dec =
           decodeStruct_loop X fs vs True (i + 1) l m True dec"
  using assms
  by (subst decodeStruct_loop.simps) (auto simp: Let_def sliceFrom_def)

lemma decodeStruct_unexported_extension_then_plain:
  assumes "underlying rt = TStruct [A, B]"
    and "\<not> Skip (FieldTag A)" and "BinaryExtension (FieldTag A)" and "\<not> Exported A"
    and "\<not> Skip (FieldTag B)" and "\<not> BinaryExtension (FieldTag B)"
    and "0 \<le> pos dec" and "pos dec < int (length (data dec))"
  shows "decodeStruct X rt (VStruct [a, b]) True dec =
           (Inl (Panicked (TagOrderingViolation (FieldName B))), dec)"
proof -
  have "decodeStruct_loop X [A, B] [a, b] True 0 2 Map.empty False dec
          = decodeStruct_loop X [A, B] [a, b] True 1 2 Map.empty True dec"
    using decodeStruct_loop_unexported [where i = 0 and l = 2 and fs = "[A, B]"
        and vs = "[a, b]" and dec = dec and X = X and m = Map.empty and seen = False]
      assms by simp
  also have "\<dots> = (Inl (Panicked (TagOrderingViolation (FieldName B))), dec)"
    using decodeStruct_loop_violation [where i = 1 and l = 2 and fs = "[A, B]"
        and vs = "[a, b]" and dec = dec and X = X and cs = True and m = Map.empty] assms
    by simp
  finally have "decodeStruct_loop X [A, B] [a, b] True 0 2 Map.empty False dec
          = (Inl (Panicked (TagOrderingViolation (FieldName B))), dec)" .
  then show ?thesis
    by (subst decodeStruct_fields [OF assms(1), of 2]) simp_all
qed

lemma decodeStruct_loop_fails_once_seen:
  assumes "i \<le> k" and "k < l"
    and "\<not> Skip (FieldTag (fs ! k))" and "\<not> BinaryExtension (FieldTag (fs ! k))"
  shows "\<exists>f d. decodeStruct_loop X fs vs cs i l m True dec = (Inl f, d)"
  using assms(1)
proof (induction "k - i" arbitrary: i vs m dec)
  case 0
  then have ik: "i = k" by simp
  show ?case
    using assms(2-4) unfolding ik
    by (subst decodeStruct_loop.simps) (simp add: Let_def)
next
  case (Suc n)
  then have lt: "i < k" and n: "n = k - (i + 1)" and le: "i + 1 \<le> k" by simp_all
  note IH = Suc.hyps(1) [OF n le]
  have il: "i < l" using lt assms(2) by simp
  show ?case
  proof (cases "length fs \<le> i \<or> length vs \<le> i")
    case True
    then show ?thesis using il by (subst decodeStruct_loop.simps) simp
  next
    case False
    obtain r d where db: "decodeBin X (FieldType (fs ! i)) (vs ! i) True
        (Some (fieldOption m (fs ! i))) dec = (r, d)"
      by (cases "decodeBin X (FieldType (fs ! i)) (vs ! i) True (Some (fieldOption m (fs ! i))) dec")
    have opt: "(case m (FieldName (fs ! i)) of
          None \<Rightarrow> \<lparr>OptionalField = Optional (FieldTag (fs ! i)),
                    Order = TagOrder (FieldTag (fs ! i)), SizeOfSlice = None\<rparr>
        | Some s \<Rightarrow> setSizeOfSlice \<lparr>OptionalField = Optional (FieldTag (fs ! i)),
                    Order = TagOrder (FieldTag (fs ! i)), SizeOfSlice = None\<rparr> s)
        = fieldOption m (fs ! i)"
      by (simp add: fieldOption_def setSizeOfSlice_def split: option.splits)
    show ?thesis
      using il False IH db
      by (subst decodeStruct_loop.simps)
        (auto simp: Let_def opt split: sum.splits)
  qed
qed


lemma decodeStruct_loop_fails_on_violation:
  assumes "i \<le> j" and "j < k" and "k < l"
    and "\<not> Skip (FieldTag (fs ! j))" and "BinaryExtension (FieldTag (fs ! j))"
    and "\<not> Skip (FieldTag (fs ! k))" and "\<not> BinaryExtension (FieldTag (fs ! k))"
  shows "\<exists>f d. decodeStruct_loop X fs vs cs i l m seen dec = (Inl f, d)"
  using assms(1)
proof (induction "j - i" arbitrary: i vs m seen dec)
  case 0
  then have ij: "i = j" by simp
  have il: "j < l" using assms(2,3) by simp
  have later: "\<exists>f d. decodeStruct_loop X fs vs' cs (j + 1) l m' True d' = (Inl f, d)"
    for vs' m' d'
    using assms(2,3,6,7) by (intro decodeStruct_loop_fails_once_seen [where k = k]) simp_all
  have opt: "(case m (FieldName (fs ! j)) of
        None \<Rightarrow> \<lparr>OptionalField = Optional (FieldTag (fs ! j)),
                  Order = TagOrder (FieldTag (fs ! j)), SizeOfSlice = None\<rparr>
      | Some s \<Rightarrow> setSizeOfSlice \<lparr>OptionalField = Optional (FieldTag (fs ! j)),
                  Order = TagOrder (FieldTag (fs ! j)), SizeOfSlice = None\<rparr> s)
      = fieldOption m (fs ! j)"
    by (simp add: fieldOption_def setSizeOfSlice_def split: option.splits)
  obtain r d where db: "decodeBin X (FieldType (fs ! j)) (vs ! j) True
      (Some (fieldOption m (fs ! j))) dec = (r, d)"
    by (cases "decodeBin X (FieldType (fs ! j)) (vs ! j) True (Some (fieldOption m (fs ! j))) dec")
  show ?case
    unfolding ij
    using il assms(4,5) later db
    by (subst decodeStruct_loop.simps) (auto simp: Let_def opt split: sum.splits)
next
  case (Suc n)
  then have lt: "i < j" and n: "n = j - (i + 1)" and le: "i + 1 \<le> j" by simp_all
  note IH = Suc.hyps(1) [OF n le]
  have il: "i < l" using lt assms(2,3) by simp
  have opt: "(case m (FieldName (fs ! i)) of
        None \<Rightarrow> \<lparr>OptionalField = Optional (FieldTag (fs ! i)),
                  Order = TagOrder (FieldTag (fs ! i)), SizeOfSlice = None\<rparr>
      | Some s \<Rightarrow> setSizeOfSlice \<lparr>OptionalField = Optional (FieldTag (fs ! i)),
                  Order = TagOrder (FieldTag (fs ! i)), SizeOfSlice = None\<rparr> s)
      = fieldOption m (fs ! i)"
    by (simp add: fieldOption_def setSizeOfSlice_def split: option.splits)
  obtain r d where db: "decodeBin X (FieldType (fs ! i)) (vs ! i) True
      (Some (fieldOption m (fs ! i))) dec = (r, d)"
    by (cases "decodeBin X (FieldType (fs ! i)) (vs ! i) True (Some (fieldOption m (fs ! i))) dec")
  show ?case
    using il IH db
    by (subst decodeStruct_loop.simps) (auto simp: Let_def opt split: sum.splits)
qed

lemma decodeStruct_fails_on_violation:
  assumes "underlying rt = TStruct fs"
    and "j < k" and "k < length fs"
    and "\<not> Skip (FieldTag (fs ! j))" and "BinaryExtension (FieldTag (fs ! j))"
    and "\<not> Skip (FieldTag (fs ! k))" and "\<not> BinaryExtension (FieldTag (fs ! k))"
  shows "isl (fst (decodeStruct X rt rv cs dec))"
proof (cases rv)
  case (VStruct vs)
  obtain f d where "decodeStruct_loop X fs vs cs 0 (length fs) Map.empty False dec = (Inl f, d)"
    using decodeStruct_loop_fails_on_violation [where i = 0 and j = j and k = k
        and l = "length fs" and fs = fs and X = X and vs = vs and cs = cs and m = Map.empty
        and seen = False and dec = dec] assms
    by auto
  then show ?thesis using assms(1) VStruct by (simp add: decodeStruct.simps)
qed (use assms(1) in \<open>simp_all add: decodeStruct.simps\<close>)

text \<open>
  Claim C5, amended. A record that declares a non-extension field after an extension
  field, neither of the two tagged \<open>skip\<close>, never decodes, whatever the destination and
  the buffer: the result is a failure. The order of the tags is checked inside the
  field loop, when the offending field is reached. For a settable record with exactly
  the fields \<open>[A(ext), B]\<close>, neither tagged \<open>skip\<close>, and a cursor inside the buffer or at
  its end: when no byte is left or \<open>A\<close> is not exported, \<open>A\<close> is passed by and the
  panic \<open>TagOrderingViolation\<close> naming \<open>B\<close> is raised at the initial position; otherwise
  \<open>A\<close> is decoded first, its failure (or the panic of \<open>sizeof\<close>), if any, is the result,
  and else the panic is raised with the cursor where the decode of \<open>A\<close> left it.
\<close>

theorem tag_ordering_violation_raised_at_offending_field:
  assumes "underlying rt = TStruct fs"
  shows "(j < k \<and> k < length fs
            \<and> \<not> Skip (FieldTag (fs ! j)) \<and> BinaryExtension (FieldTag (fs ! j))
            \<and> \<not> Skip (FieldTag (fs ! k)) \<and> \<not> BinaryExtension (FieldTag (fs ! k))
          \<longrightarrow> isl (fst (decodeStruct X rt rv cs dec)))
       \<and> (fs = [A, B]
            \<and> \<not> Skip (FieldTag A) \<and> BinaryExtension (FieldTag A)
            \<and> \<not> Skip (FieldTag B) \<and> \<not> BinaryExtension (FieldTag B)
            \<and> 0 \<le> pos dec \<and> pos dec \<le> int (length (data dec))
          \<longrightarrow> decodeStruct X rt (VStruct [a, b]) True dec =
               (if pos dec = int (length (data dec)) \<or> \<not> Exported A
                then (Inl (Panicked (TagOrderingViolation (FieldName B))), dec)
                else case decodeBin X (FieldType A) a True (Some (fieldOption Map.empty A)) dec of
                       (Inl err, dec') \<Rightarrow> (Inl err, dec')
                     | (Inr x, dec') \<Rightarrow>
                         (case (if SizeOf (FieldTag A) \<noteq> [] then sizeof (FieldType A) x
                                else Inr 0) of
                            Inl p \<Rightarrow> (Inl (Panicked p), dec')
                          | Inr n \<Rightarrow>
                              (Inl (Panicked (TagOrderingViolation (FieldName B))), dec'))))"
proof (intro conjI impI; elim conjE)
  assume "j < k" and "k < length fs"
    and "\<not> Skip (FieldTag (fs ! j))" and "BinaryExtension (FieldTag (fs ! j))"
    and "\<not> Skip (FieldTag (fs ! k))" and "\<not> BinaryExtension (FieldTag (fs ! k))"
  with assms show "isl (fst (decodeStruct X rt rv cs dec))"
    by (rule decodeStruct_fails_on_violation)
next
  assume fs: "fs = [A, B]"
  assume tags: "\<not> Skip (FieldTag A)" "BinaryExtension (FieldTag A)"
    "\<not> Skip (FieldTag B)" "\<not> BinaryExtension (FieldTag B)"
    and inside: "0 \<le> pos dec" "pos dec \<le> int (length (data dec))"
  note rt = assms [unfolded fs]
  show "decodeStruct X rt (VStruct [a, b]) True dec =
               (if pos dec = int (length (data dec)) \<or> \<not> Exported A
                then (Inl (Panicked (TagOrderingViolation (FieldName B))), dec)
                else case decodeBin X (FieldType A) a True (Some (fieldOption Map.empty A)) dec of
                       (Inl err, dec') \<Rightarrow> (Inl err, dec')
                     | (Inr x, dec') \<Rightarrow>
                         (case (if SizeOf (FieldTag A) \<noteq> [] then sizeof (FieldType A) x
                                else Inr 0) of
                            Inl p \<Rightarrow> (Inl (Panicked p), dec')
                          | Inr n \<Rightarrow>
                              (Inl (Panicked (TagOrderingViolation (FieldName B))), dec')))"
  proof (cases "Exported A")
    case True
    from decodeStruct_extension_then_plain [OF rt tags(1,2) True tags(3,4) inside, of X a b]
    show ?thesis using True by simp
  next
    case False
    show ?thesis
    proof (cases "pos dec = int (length (data dec))")
      case at_end: True
      have "decodeStruct_loop X [A, B] [a, b] True 0 2 Map.empty False dec
              = decodeStruct_loop X [A, B] [a, b] True 1 2 Map.empty True dec"
        using decodeStruct_loop_skip_extension [where i = 0 and l = 2 and fs = "[A, B]"
            and vs = "[a, b]" and dec = dec and X = X and cs = True and m = Map.empty
            and seen = False]
          tags inside at_end by simp
      also have "\<dots> = (Inl (Panicked (TagOrderingViolation (FieldName B))), dec)"
        using decodeStruct_loop_violation [where i = 1 and l = 2 and fs = "[A, B]"
            and vs = "[a, b]" and dec = dec and X = X and cs = True and m = Map.empty] tags
        by simp
      finally have "decodeStruct_loop X [A, B] [a, b] True 0 2 Map.empty False dec
              = (Inl (Panicked (TagOrderingViolation (FieldName B))), dec)" .
      then show ?thesis using at_end
        by (subst decodeStruct_fields [OF rt, of 2]) simp_all
    next
      case False
      with inside have "pos dec < int (length (data dec))" by simp
      from decodeStruct_unexported_extension_then_plain
        [OF rt tags(1,2) \<open>\<not> Exported A\<close> tags(3,4) inside(1) this, of X a b]
      show ?thesis using \<open>\<not> Exported A\<close> by simp
    qed
  qed
qed

theorem tag_ordering_violation_raised_at_offending_field_witness:
  "isl (fst (decodeStruct noExternals ExtFirst (VStruct [VUint 0, VUint 0]) True
               (NewBinDecoder [0x01, 0x02, 0x03, 0x04, 0x09])))
   \<and> decodeStruct noExternals ExtFirst (VStruct [VUint 0, VUint 0]) True
      (NewBinDecoder [0x01, 0x02, 0x03, 0x04, 0x09])
     = (Inl (Panicked (TagOrderingViolation ''B'')),
        \<lparr>data = [0x01, 0x02, 0x03, 0x04, 0x09], pos = 4,
           currentFieldOpt = Some \<lparr>OptionalField = False, Order = LittleEndian,
                                   SizeOfSlice = None\<rparr>,
           encoding = EncodingBin\<rparr>)"
  using tag_ordering_violation_raised_at_offending_field
    [where rt = ExtFirst
       and fs = "[StructField ''A'' (extTag LittleEndian) True TUint32,
                  StructField ''B'' (plainTag LittleEndian) True TUint8]"
       and j = 0 and k = 1 and rv = "VStruct [VUint 0, VUint 0]" and cs = True
       and A = "StructField ''A'' (extTag LittleEndian) True TUint32"
       and B = "StructField ''B'' (plainTag LittleEndian) True TUint8"
       and dec = "NewBinDecoder [0x01, 0x02, 0x03, 0x04, 0x09]"
       and X = noExternals and a = "VUint 0" and b = "VUint 0"]
  by (simp add: eval_defs)

text \<open>
  Why the two fields must not be tagged \<open>skip\<close>: the test \<open>if fieldTag.Skip\<close> comes
  first in the loop, so a skipped field neither raises the violation nor counts as an
  extension field. Both records below decode from the buffer \<open>[7]\<close>.
\<close>

lemma skipped_fields_are_outside_the_ordering_check:
  "decodeStruct noExternals
      (TStruct [StructField ''A'' (extTag LittleEndian) True TUint8,
                StructField ''B'' ((plainTag LittleEndian)\<lparr>Skip := True\<rparr>) True TUint8])
      (VStruct [VUint 0, VUint 0]) True (NewBinDecoder [0x07])
     = (Inr (VStruct [VUint 7, VUint 0]),
        \<lparr>data = [0x07], pos = 1,
           currentFieldOpt = Some \<lparr>OptionalField = False, Order = LittleEndian,
                                   SizeOfSlice = None\<rparr>,
           encoding = EncodingBin\<rparr>)
   \<and> decodeStruct noExternals
      (TStruct [StructField ''A'' ((extTag LittleEndian)\<lparr>Skip := True\<rparr>) True TUint8,
                StructField ''B'' (plainTag LittleEndian) True TUint8])
      (VStruct [VUint 0, VUint 0]) True (NewBinDecoder [0x07])
     = (Inr (VStruct [VUint 0, VUint 7]),
        \<lparr>data = [0x07], pos = 1,
           currentFieldOpt = Some \<lparr>OptionalField = False, Order = LittleEndian,
                                   SizeOfSlice = None\<rparr>,
           encoding = EncodingBin\<rparr>)"
  by (simp add: eval_defs)

theorem sizeof_linkage_recorded_witness:
  "decodeStruct_loop noExternals
      [StructField ''Len'' ((plainTag LittleEndian)\<lparr>SizeOf := ''Items''\<rparr>) True TUint32,
       StructField ''Items'' (plainTag LittleEndian) True (TSlice TUint8)]
      [VUint 0, VSlice []] True 0 2 Map.empty False
      (NewBinDecoder [0x03, 0x00, 0x00, 0x00, 0x41, 0x42, 0x43])
   = decodeStruct_loop noExternals
      [StructField ''Len'' ((plainTag LittleEndian)\<lparr>SizeOf := ''Items''\<rparr>) True TUint32,
       StructField ''Items'' (plainTag LittleEndian) True (TSlice TUint8)]
      [VUint 3, VSlice []] True 1 2 [''Items'' \<mapsto> 3] False
      \<lparr>data = [0x03, 0x00, 0x00, 0x00, 0x41, 0x42, 0x43], pos = 4,
         currentFieldOpt = Some \<lparr>OptionalField = False, Order = LittleEndian,
                                 SizeOfSlice = None\<rparr>,
         encoding = EncodingBin\<rparr>"
  using sizeof_linkage_recorded
    [where i = 0 and l = 2
       and fs = "[StructField ''Len'' ((plainTag LittleEndian)\<lparr>SizeOf := ''Items''\<rparr>) True TUint32,
                  StructField ''Items'' (plainTag LittleEndian) True (TSlice TUint8)]"
       and vs = "[VUint 0, VSlice []]" and X = noExternals and m = Map.empty
       and dec = "NewBinDecoder [0x03, 0x00, 0x00, 0x00, 0x41, 0x42, 0x43]"
       and x = "VUint 3" and w = 3
       and dec' = "\<lparr>data = [0x03, 0x00, 0x00, 0x00, 0x41, 0x42, 0x43], pos = 4,
         currentFieldOpt = Some \<lparr>OptionalField = False, Order = LittleEndian,
                                 SizeOfSlice = None\<rparr>,
         encoding = EncodingBin\<rparr>"]
  by (simp add: eval_defs)

lemma decodeStruct_loop_decoded:
  assumes "i < l" "i < length fs" "i < length vs"
    and "\<not> Skip (FieldTag (fs ! i))"
    and "\<not> BinaryExtension (FieldTag (fs ! i)) \<longrightarrow> \<not> seen"
    and "BinaryExtension (FieldTag (fs ! i)) \<longrightarrow> 0 \<le> pos dec \<and> pos dec < int (length (data dec))"
    and "Exported (fs ! i)"
    and "decodeBin X (FieldType (fs ! i)) (vs ! i) True (Some (fieldOption m (fs ! i))) dec
           = (Inr x, dec')"
    and "recordSize m (fs ! i) x = Inr m'"
  shows "decodeStruct_loop X fs vs True i l m seen dec =
           decodeStruct_loop X fs (vs[i := x]) True (i + 1) l m'
             (seen \<or> BinaryExtension (FieldTag (fs ! i))) dec'"
  using assms(8,9)
  by (subst decodeStruct_loop_field [OF assms(1-7)])
    (auto simp: recordSize_def split: sum.splits if_splits)

text \<open>
  Claim C4 (forward compatibility of trailing extension fields). For a record
  \<open>[A, B(ext), C(ext)]\<close> whose field \<open>A\<close> decodes from the buffer: if the buffer ends
  with the bytes of \<open>A\<close>, the decode succeeds and leaves \<open>B\<close> and \<open>C\<close> as they were (at
  their zero values in a fresh destination); if bytes remain before \<open>B\<close> and before
  \<open>C\<close> and both decode, all three fields are decoded.
\<close>

theorem extension_fields_forward_compatibility:
  assumes "underlying rt = TStruct [A, B, C]"
    and "\<not> Skip (FieldTag A)" and "\<not> BinaryExtension (FieldTag A)" and "Exported A"
    and "BinaryExtension (FieldTag B)" and "BinaryExtension (FieldTag C)"
    and "decodeBin X (FieldType A) a True (Some (fieldOption Map.empty A)) dec = (Inr a', decA)"
    and "recordSize Map.empty A a' = Inr mA"
    and "0 \<le> pos decA"
  shows "(pos decA = int (length (data decA))
          \<longrightarrow> decodeStruct X rt (VStruct [a, b, c]) True dec = (Inr (VStruct [a', b, c]), decA))
       \<and> (pos decA < int (length (data decA))
            \<and> \<not> Skip (FieldTag B) \<and> Exported B \<and> \<not> Skip (FieldTag C) \<and> Exported C
            \<and> decodeBin X (FieldType B) b True (Some (fieldOption mA B)) decA = (Inr b', decB)
            \<and> recordSize mA B b' = Inr mB
            \<and> 0 \<le> pos decB \<and> pos decB < int (length (data decB))
            \<and> decodeBin X (FieldType C) c True (Some (fieldOption mB C)) decB = (Inr c', decC)
            \<and> recordSize mB C c' = Inr mC
          \<longrightarrow> decodeStruct X rt (VStruct [a, b, c]) True dec
                = (Inr (VStruct [a', b', c']), decC))"
proof (intro conjI impI)
  have stepA: "decodeStruct_loop X [A, B, C] [a, b, c] True 0 3 Map.empty False dec
      = decodeStruct_loop X [A, B, C] [a', b, c] True (Suc 0) 3 mA False decA"
    using decodeStruct_loop_decoded [where i = 0 and l = 3 and fs = "[A, B, C]"
        and vs = "[a, b, c]" and seen = False and dec = dec and X = X and m = Map.empty
        and x = a' and dec' = decA and m' = mA] assms
    by simp
  {
    assume endA: "pos decA = int (length (data decA))"
    have "decodeStruct_loop X [A, B, C] [a', b, c] True (Suc 0) 3 mA False decA
        = decodeStruct_loop X [A, B, C] [a', b, c] True (Suc (Suc 0)) 3 mA
            (\<not> Skip (FieldTag B)) decA"
      using decodeStruct_loop_skip_extension [where i = "Suc 0" and l = 3 and fs = "[A, B, C]"
          and vs = "[a', b, c]" and dec = decA and X = X and cs = True and m = mA
          and seen = False] assms endA
      by simp
    also have "\<dots> = decodeStruct_loop X [A, B, C] [a', b, c] True 3 3 mA
            (Skip (FieldTag C) \<and> \<not> Skip (FieldTag B) \<or> \<not> Skip (FieldTag C)) decA"
      using decodeStruct_loop_skip_extension [where i = "Suc (Suc 0)" and l = 3
          and fs = "[A, B, C]" and vs = "[a', b, c]" and dec = decA and X = X and cs = True
          and m = mA and seen = "\<not> Skip (FieldTag B)"] assms endA
      by (simp add: numeral_3_eq_3)
    also have "\<dots> = (Inr [a', b, c], decA)"
      by (rule decodeStruct_loop_end)
    finally show "decodeStruct X rt (VStruct [a, b, c]) True dec = (Inr (VStruct [a', b, c]), decA)"
      using stepA by (subst decodeStruct_fields [OF assms(1), of 3]) simp_all
  }
  {
    assume h: "pos decA < int (length (data decA))
            \<and> \<not> Skip (FieldTag B) \<and> Exported B \<and> \<not> Skip (FieldTag C) \<and> Exported C
            \<and> decodeBin X (FieldType B) b True (Some (fieldOption mA B)) decA = (Inr b', decB)
            \<and> recordSize mA B b' = Inr mB
            \<and> 0 \<le> pos decB \<and> pos decB < int (length (data decB))
            \<and> decodeBin X (FieldType C) c True (Some (fieldOption mB C)) decB = (Inr c', decC)
            \<and> recordSize mB C c' = Inr mC"
    have "decodeStruct_loop X [A, B, C] [a', b, c] True (Suc 0) 3 mA False decA
        = decodeStruct_loop X [A, B, C] [a', b', c] True (Suc (Suc 0)) 3 mB True decB"
      using decodeStruct_loop_decoded [where i = "Suc 0" and l = 3 and fs = "[A, B, C]"
          and vs = "[a', b, c]" and seen = False and dec = decA and X = X and m = mA
          and x = b' and dec' = decB and m' = mB] assms h
      by simp
    also have "\<dots> = decodeStruct_loop X [A, B, C] [a', b', c'] True 3 3 mC True decC"
      using decodeStruct_loop_decoded [where i = "Suc (Suc 0)" and l = 3 and fs = "[A, B, C]"
          and vs = "[a', b', c]" and seen = True and dec = decB and X = X and m = mB
          and x = c' and dec' = decC and m' = mC] assms h
      by (simp add: numeral_3_eq_3)
    also have "\<dots> = (Inr [a', b', c'], decC)"
      by (rule decodeStruct_loop_end)
    finally show "decodeStruct X rt (VStruct [a, b, c]) True dec
                = (Inr (VStruct [a', b', c']), decC)"
      using stepA by (subst decodeStruct_fields [OF assms(1), of 3]) simp_all
  }
qed

theorem extension_fields_forward_compatibility_witness:
  "decodeStruct noExternals WithExtensions (VStruct [VUint 0, VUint 0, VUint 0]) True
      (NewBinDecoder [0x07])
     = (Inr (VStruct [VUint 7, VUint 0, VUint 0]),
        \<lparr>data = [0x07], pos = 1,
           currentFieldOpt = Some \<lparr>OptionalField = False, Order = LittleEndian,
                                   SizeOfSlice = None\<rparr>,
           encoding = EncodingBin\<rparr>)
   \<and> decodeStruct noExternals WithExtensions (VStruct [VUint 0, VUint 0, VUint 0]) True
      (NewBinDecoder [0x07, 0x01, 0x02, 0x09])
     = (Inr (VStruct [VUint 7, VUint 0x0201, VUint 9]),
        \<lparr>data = [0x07, 0x01, 0x02, 0x09], pos = 4,
           currentFieldOpt = Some \<lparr>OptionalField = False, Order = LittleEndian,
                                   SizeOfSlice = None\<rparr>,
           encoding = EncodingBin\<rparr>)"
  using
    extension_fields_forward_compatibility
      [where rt = WithExtensions and X = noExternals
         and A = "StructField ''A'' (plainTag LittleEndian) True TUint8"
         and B = "StructField ''B'' (extTag LittleEndian) True TUint16"
         and C = "StructField ''C'' (extTag LittleEndian) True TUint8"
         and a = "VUint 0" and b = "VUint 0" and c = "VUint 0"
         and dec = "NewBinDecoder [0x07]" and a' = "VUint 7" and mA = Map.empty
         and decA = "\<lparr>data = [0x07], pos = 1,
           currentFieldOpt = Some \<lparr>OptionalField = False, Order = LittleEndian,
                                   SizeOfSlice = None\<rparr>,
           encoding = EncodingBin\<rparr>"]
    extension_fields_forward_compatibility
      [where rt = WithExtensions and X = noExternals
         and A = "StructField ''A'' (plainTag LittleEndian) True TUint8"
         and B = "StructField ''B'' (extTag LittleEndian) True TUint16"
         and C = "StructField ''C'' (extTag LittleEndian) True TUint8"
         and a = "VUint 0" and b = "VUint 0" and c = "VUint 0"
         and dec = "NewBinDecoder [0x07, 0x01, 0x02, 0x09]" and a' = "VUint 7"
         and mA = Map.empty and b' = "VUint 0x0201" and mB = Map.empty
         and c' = "VUint 9" and mC = Map.empty
         and decA = "\<lparr>data = [0x07, 0x01, 0x02, 0x09], pos = 1,
           currentFieldOpt = Some \<lparr>OptionalField = False, Order = LittleEndian,
                                   SizeOfSlice = None\<rparr>,
           encoding = EncodingBin\<rparr>"
         and decB = "\<lparr>data = [0x07, 0x01, 0x02, 0x09], pos = 3,
           currentFieldOpt = Some \<lparr>OptionalField = False, Order = LittleEndian,
                                   SizeOfSlice = None\<rparr>,
           encoding = EncodingBin\<rparr>"
         and decC = "\<lparr>data = [0x07, 0x01, 0x02, 0x09], pos = 4,
           currentFieldOpt = Some \<lparr>OptionalField = False, Order = LittleEndian,
                                   SizeOfSlice = None\<rparr>,
           encoding = EncodingBin\<rparr>"]
  by (simp add: eval_defs recordSize_def WithExtensions_def)

lemma interfaceElem_not_interface: "\<not> isInterface t \<Longrightarrow> interfaceElem t v dn = None"
  by (induction t v dn rule: interfaceElem.induct) auto

lemma indirect_direct:
  assumes "\<not> isPtr t" and "\<not> isInterface t" and "\<not> implementsBinaryUnmarshaler (TPtr t)"
  shows "indirect t v True dn = Located [] t v True"
proof -
  have loop: "indirect_loop [] t v True False dn = Located [] t v True"
    using assms by (subst indirect_loop.simps) (simp add: interfaceElem_not_interface)
  have "indirect_loop [] (TPtr t) (VPtr (Some v)) False True dn = Located [] t v True"
    using assms loop
    by (subst indirect_loop.simps) (simp add: isPtr_def Elem_def isInterface_def)
  then show ?thesis using loop by (simp add: indirect_def)
qed

lemma indirect_pointer_decodingNull:
  assumes "p = None \<or> \<not> isPtr u"
  shows "indirect (TPtr u) (VPtr p) True True = Located [] (TPtr u) (VPtr p) True"
  using assms
  by (simp add: indirect_def isPtr_def)
    (subst indirect_loop.simps, simp add: isPtr_def Elem_def isInterface_def)

lemma indirect_pointer_override:
  assumes "implementsBinaryUnmarshaler (TPtr u)"
  shows "indirect (TPtr u) (VPtr p) True False
           = Override [InPtr] (TypeName u) (case p of None \<Rightarrow> zero u | Some x \<Rightarrow> x)"
  using assms
  by (simp add: indirect_def isPtr_def)
    (subst indirect_loop.simps, simp add: isPtr_def Elem_def isInterface_def Let_def split: option.splits)

lemma int64_in_range: "- (2 ^ 63) \<le> k \<Longrightarrow> k < 2 ^ 63 \<Longrightarrow> int64 k = k"
  unfolding int64_def by (rule signed_take_bit_int_eq_self)

text \<open>
  Claim C7, amended: the engine decodes a string with \<open>ReadString\<close>. Once the length
  prefix \<open>n\<close> has been read, the string is exactly the next \<open>n\<close> bytes of the buffer,
  whatever they are; no byte is replaced.
\<close>

theorem decodeBin_string_is_verbatim:
  assumes "\<not> isOptional opt"
    and "ReadLength X (dec\<lparr>currentFieldOpt := Some opt\<rparr>) = (Inr n, decA)"
    and "0 \<le> n" and "0 \<le> pos decA" and "pos decA + n \<le> int (length (data decA))"
    and "length (data decA) < 2 ^ 63"
  shows "decodeBin X TString v True (Some opt) dec
           = (Inr (VString (take (nat n) (drop (nat (pos decA)) (data decA)))),
              decA\<lparr>pos := pos decA + n\<rparr>)"
proof -
  have ind: "indirect TString v True False = Located [] TString v True"
    by (rule indirect_direct) (simp_all add: isPtr_def isInterface_def)
  have hi: "int64 (pos decA + n) = pos decA + n"
    using assms by (intro int64_in_range) auto
  have "ReadString X (dec\<lparr>currentFieldOpt := Some opt\<rparr>)
          = (Inr (take (nat n) (drop (nat (pos decA)) (data decA))),
             decA\<lparr>pos := pos decA + n\<rparr>)"
    using assms by (simp add: ReadString_def ReadByteSlice_def hi Let_def)
  then show ?thesis
    using assms(1) ind
    by (subst decodeBin.simps) (simp add: decodeBin_optional_def decodeBin_scalar_def Let_def)
qed

theorem decodeBin_string_is_verbatim_witness:
  "decodeBin noExternals TString (VString []) True
      (Some \<lparr>OptionalField = False, Order = LittleEndian, SizeOfSlice = None\<rparr>)
      (NewBinDecoder [0x01, 0xFF])
     = (Inr (VString [0xFF]),
        \<lparr>data = [0x01, 0xFF], pos = 2,
           currentFieldOpt = Some \<lparr>OptionalField = False, Order = LittleEndian,
                                   SizeOfSlice = None\<rparr>,
           encoding = EncodingBin\<rparr>)"
  using decodeBin_string_is_verbatim
    [where opt = "\<lparr>OptionalField = False, Order = LittleEndian, SizeOfSlice = None\<rparr>"
       and X = noExternals and dec = "NewBinDecoder [0x01, 0xFF]" and n = 1
       and v = "VString []"
       and decA = "\<lparr>data = [0x01, 0xFF], pos = 1,
           currentFieldOpt = Some \<lparr>OptionalField = False, Order = LittleEndian,
                                   SizeOfSlice = None\<rparr>,
           encoding = EncodingBin\<rparr>"]
  by (simp add: eval_defs)

text \<open>
  Claim C7, as stated (the engine uses the flavor that replaces invalid UTF-8 by
  U+FFFD). On the payload \<open>FF\<close> the engine returns the byte \<open>FF\<close> itself, where the
  replacing read \<open>SafeReadUTF8String\<close> returns \<open>EF BF BD\<close>.
\<close>

theorem decodeBin_string_keeps_invalid_utf8:
  "fst (decodeBin noExternals TString (VString []) True None (NewBinDecoder [0x01, 0xFF]))
     = Inr (VString [0xFF])
   \<and> fst (SafeReadUTF8String noExternals (NewBinDecoder [0x01, 0xFF]))
     = Inr [0xEF, 0xBF, 0xBD]"
  by (simp add: eval_defs SafeReadUTF8String_def runeTail_def)

section \<open>Optional values\<close>

lemma withOpt_simps [simp]: "withOpt c (r, d) = (r, d\<lparr>currentFieldOpt := c\<rparr>)"
  by (simp add: withOpt_def)

lemma Remaining_opt [simp]: "Remaining (dec\<lparr>currentFieldOpt := c\<rparr>) = Remaining dec"
  by (simp add: Remaining_def)

lemma sliceFrom_opt [simp]: "sliceFrom (dec\<lparr>currentFieldOpt := c\<rparr>) = sliceFrom dec"
  by (simp add: sliceFrom_def)

lemma ReadByte_opt: "ReadByte (dec\<lparr>currentFieldOpt := c\<rparr>) = withOpt c (ReadByte dec)"
  by (simp add: ReadByte_def)

lemma ReadBool_opt: "ReadBool (dec\<lparr>currentFieldOpt := c\<rparr>) = withOpt c (ReadBool dec)"
  by (simp add: ReadBool_def ReadByte_opt withOpt_def split: prod.splits sum.splits failure.splits)

lemma ReadUint16_opt:
  "ReadUint16 (dec\<lparr>currentFieldOpt := c\<rparr>) order = withOpt c (ReadUint16 dec order)"
  by (simp add: ReadUint16_def split: option.splits)

lemma ReadUint32_opt:
  "ReadUint32 (dec\<lparr>currentFieldOpt := c\<rparr>) order = withOpt c (ReadUint32 dec order)"
  by (simp add: ReadUint32_def split: option.splits)

lemma readNBytes_loop_opt:
  "readNBytes_loop i n buf (dec\<lparr>currentFieldOpt := c\<rparr>) = withOpt c (readNBytes_loop i n buf dec)"
proof (induction i n buf dec rule: readNBytes_loop.induct)
  case (1 i n buf reader)
  show ?case
  proof (cases "i < n")
    case False
    then show ?thesis by (simp add: readNBytes_loop.simps)
  next
    case True
    obtain r d where rb: "ReadByte reader = (r, d)" by (cases "ReadByte reader")
    show ?thesis
    proof (cases r)
      case (Inl e)
      with True rb show ?thesis
        by (simp add: readNBytes_loop.simps [of i n buf] ReadByte_opt)
    next
      case (Inr b)
      with True rb "1.IH" [OF True rb [symmetric] Inr] show ?thesis
        by (simp add: readNBytes_loop.simps [of i n buf] ReadByte_opt)
    qed
  qed
qed

lemma ReadUint64_opt:
  "ReadUint64 (dec\<lparr>currentFieldOpt := c\<rparr>) order = withOpt c (ReadUint64 dec order)"
  by (simp add: ReadUint64_def ReadNBytes_def readNBytes_def readNBytes_loop_opt withOpt_def
      split: prod.splits sum.splits option.splits)

lemma ReadFloat32_opt:
  "ReadFloat32 (dec\<lparr>currentFieldOpt := c\<rparr>) order = withOpt c (ReadFloat32 dec order)"
  by (simp add: ReadFloat32_def IsBorsh_def Let_def split: option.splits)

lemma ReadFloat64_opt:
  "ReadFloat64 (dec\<lparr>currentFieldOpt := c\<rparr>) order = withOpt c (ReadFloat64 dec order)"
  by (simp add: ReadFloat64_def IsBorsh_def Let_def split: option.splits)

lemma ReadUvarint64_opt:
  "ReadUvarint64 (dec\<lparr>currentFieldOpt := c\<rparr>) = withOpt c (ReadUvarint64 dec)"
  by (simp add: ReadUvarint64_def split: option.splits prod.splits)

lemma ReadString_opt:
  "encoding dec \<noteq> EncodingCompactU16 \<Longrightarrow>
   ReadString X (dec\<lparr>currentFieldOpt := c\<rparr>) = withOpt c (ReadString X dec)"
  by (cases "encoding dec")
    (simp_all add: ReadString_def ReadByteSlice_def ReadLength_def ReadUvarint64_opt
      ReadUint32_opt withOpt_def Let_def split: prod.splits sum.splits)

lemma setValue_opt:
  "setValue cs (withOpt c r) mk = withOpt c (setValue cs r mk)"
  by (cases r) (simp add: setValue_def split: sum.splits failure.splits)

lemma plug_append: "plug (c @ c') x = plug c (plug c' x)"
  by (induction c x rule: plug.induct) simp_all

lemma decodeBin_scalar_opt:
  assumes "encoding dec = EncodingCompactU16 \<longrightarrow> underlying rt \<noteq> TString"
    and "Order opt = Order opt'"
  shows "decodeBin_scalar X rt rv cs opt (dec\<lparr>currentFieldOpt := c\<rparr>)
           = map_option (withOpt c) (decodeBin_scalar X rt rv cs opt' dec)"
  using assms
  by (cases "underlying rt")
    (simp_all add: decodeBin_scalar_def ReadString_opt ReadByte_opt ReadBool_opt
      ReadInt8_def ReadInt16_def ReadInt32_def ReadInt64_def ReadUint16_opt ReadUint32_opt
      ReadUint64_opt ReadFloat32_opt ReadFloat64_opt setValue_opt
      split: prod.splits sum.splits)

lemma decodeBin_incoming_opt:
  "decodeBin X t v cs (Some opt) (dec\<lparr>currentFieldOpt := c\<rparr>) = decodeBin X t v cs (Some opt) dec"
  by (simp add: decodeBin.simps [of X t v cs "Some opt" "dec\<lparr>currentFieldOpt := c\<rparr>"]
      decodeBin.simps [of X t v cs "Some opt" dec])

lemma sameUpToOpt_refl [simp]: "sameUpToOpt r r"
  by (simp add: sameUpToOpt_def)

lemma sameUpToOpt_withOpt [simp]: "sameUpToOpt (r, d\<lparr>currentFieldOpt := c\<rparr>) (r, d)"
  by (simp add: sameUpToOpt_def)

lemma sameUpToOpt_pos: "sameUpToOpt r r' \<Longrightarrow> fst r = fst r' \<and> pos (snd r) = pos (snd r')"
proof -
  assume a: "sameUpToOpt r r'"
  then have "(snd r)\<lparr>currentFieldOpt := None\<rparr> = (snd r')\<lparr>currentFieldOpt := None\<rparr>"
    by (simp only: sameUpToOpt_def)
  from arg_cong [OF this, of pos] have "pos (snd r) = pos (snd r')" by simp
  with a show ?thesis by (simp add: sameUpToOpt_def)
qed

lemma decodeStruct_loop_opt:
  "sameUpToOpt (decodeStruct_loop X fs vs cs i l m seen (dec\<lparr>currentFieldOpt := c\<rparr>))
               (decodeStruct_loop X fs vs cs i l m seen dec)"
proof (induction "l - i" arbitrary: i m seen)
  case 0
  then have "\<not> i < l" by simp
  then show ?case by (simp add: decodeStruct_loop.simps [of X fs vs cs i])
next
  case (Suc n)
  then have i: "i < l" and n: "n = l - (i + 1)" by simp_all
  note IH = Suc.hyps(1) [OF n]
  show ?case
    unfolding decodeStruct_loop.simps [of X fs vs cs i l m seen "dec\<lparr>currentFieldOpt := c\<rparr>"]
      decodeStruct_loop.simps [of X fs vs cs i l m seen dec]
    using i IH
    by (cases cs) (simp_all add: Let_def decodeBin_incoming_opt split: prod.splits sum.splits)
qed

lemma decodeStruct_opt:
  "sameUpToOpt (decodeStruct X rt rv cs (dec\<lparr>currentFieldOpt := c\<rparr>)) (decodeStruct X rt rv cs dec)"
proof (cases "\<exists>fs vs. underlying rt = TStruct fs \<and> rv = VStruct vs")
  case True
  then obtain fs vs where u: "underlying rt = TStruct fs" "rv = VStruct vs" by blast
  have "sameUpToOpt (decodeStruct_loop X fs vs cs 0 (length fs) Map.empty False (dec\<lparr>currentFieldOpt := c\<rparr>))
                    (decodeStruct_loop X fs vs cs 0 (length fs) Map.empty False dec)"
    by (rule decodeStruct_loop_opt)
  then show ?thesis
    using u by (auto simp: decodeStruct.simps sameUpToOpt_def split: prod.splits sum.splits)
next
  case False
  then show ?thesis
    by (auto simp: decodeStruct.simps split: rtype.splits val.splits)
qed

lemma ReadByte_at:
  assumes "0 \<le> pos dec" and "pos dec < int (length (data dec))" and "length (data dec) < 2 ^ 63"
  shows "ReadByte dec = (Inr (data dec ! nat (pos dec)), dec\<lparr>pos := pos dec + 1\<rparr>)"
  using assms Remaining_in_range [of dec] by (simp add: ReadByte_def)

lemma decodeBin_absent:
  assumes "isOptional opt"
    and "0 \<le> pos dec" and "pos dec < int (length (data dec))" and "length (data dec) < 2 ^ 63"
    and "data dec ! nat (pos dec) = 0"
    and "indirect t v canSet True = Located ctx rt rv True"
  shows "decodeBin X t v canSet (Some opt) dec
           = (Inr (plug ctx (zero rt)), dec\<lparr>currentFieldOpt := Some opt, pos := pos dec + 1\<rparr>)"
proof -
  have "ReadByte (dec\<lparr>currentFieldOpt := Some opt\<rparr>)
          = (Inr 0, dec\<lparr>currentFieldOpt := Some opt, pos := pos dec + 1\<rparr>)"
    using ReadByte_at [of "dec\<lparr>currentFieldOpt := Some opt\<rparr>"] assms by simp
  then show ?thesis
    using assms(1,6)
    by (simp add: decodeBin.simps [of X t v canSet "Some opt" dec] decodeBin_optional_def)
qed

lemma decodeBin_present_located:
  assumes "isOptional opt"
    and "0 \<le> pos dec" and "pos dec < int (length (data dec))" and "length (data dec) < 2 ^ 63"
    and "data dec ! nat (pos dec) \<noteq> 0"
    and "indirect t v canSet True = Located ctx rt rv cs"
    and "indirect rt rv cs False = Located ctx' rt' rv' cs'"
    and "\<not> isArray rt'" and "\<not> isSlice rt'"
    and "encoding dec = EncodingCompactU16 \<longrightarrow> underlying rt' \<noteq> TString"
  shows "sameUpToOpt (decodeBin X t v canSet (Some opt) dec)
           (case decodeBin X rt rv cs (Some (opt\<lparr>OptionalField := False\<rparr>))
                   (dec\<lparr>pos := pos dec + 1\<rparr>) of
              (Inl err, d) \<Rightarrow> (Inl err, d)
            | (Inr y, d) \<Rightarrow> (Inr (plug ctx y), d))"
proof -
  define opt' where "opt' = opt\<lparr>OptionalField := False\<rparr>"
  define decC where "decC = dec\<lparr>pos := pos dec + 1, currentFieldOpt := Some opt'\<rparr>"
  define decB where "decB = decC\<lparr>currentFieldOpt := Some opt\<rparr>"
  define rest where "rest = (\<lambda>c (D :: Decoder).
      case underlying rt' of
        TStruct fs \<Rightarrow>
          (case decodeStruct X rt' rv' cs' D of
             (Inl err, dec'') \<Rightarrow> (Inl err, dec'')
           | (Inr y, dec'') \<Rightarrow> (Inr (plug c y), dec''))
      | _ \<Rightarrow> (Inl (Failed UnsupportedType), D))"
  define body where "body = (\<lambda>c sc D.
      case sc of
        Some (Inl err, dec'') \<Rightarrow> (Inl err, dec'')
      | Some (Inr x, dec'') \<Rightarrow> (Inr (plug c x), dec'')
      | None \<Rightarrow> rest c D)"
  define up where "up = (\<lambda>r :: val result.
      case r of (Inl err, d) \<Rightarrow> (Inl err, d) | (Inr y, d) \<Rightarrow> (Inr (plug ctx y), d))"
  have not_opt: "\<not> isOptional opt'" "Order opt' = Order opt"
    by (simp_all add: opt'_def isOptional_def)
  have rb: "ReadByte (dec\<lparr>currentFieldOpt := Some opt\<rparr>) = (Inr (data dec ! nat (pos dec)), decB)"
    using ReadByte_at [of "dec\<lparr>currentFieldOpt := Some opt\<rparr>"] assms(2-4)
    by (simp add: decB_def decC_def)
  have no_arr: "underlying rt' \<noteq> TArray n e" "underlying rt' \<noteq> TSlice e" for n e
    using assms(8,9) by (auto simp: isArray_def isSlice_def)
  have L: "decodeBin X t v canSet (Some opt) dec
             = body (ctx @ ctx') (decodeBin_scalar X rt' rv' cs' opt decB) decB"
    using assms(1,5,6,7) rb no_arr
    by (simp add: decodeBin.simps [of X t v canSet "Some opt" dec] decodeBin_optional_def nest_def
        body_def rest_def split: option.splits prod.splits sum.splits rtype.splits)
  have R: "decodeBin X rt rv cs (Some opt') (dec\<lparr>pos := pos dec + 1\<rparr>)
             = body ctx' (decodeBin_scalar X rt' rv' cs' opt' decC) decC"
    using not_opt assms(7) no_arr
    by (simp add: decodeBin.simps [of X rt rv cs "Some opt'" "dec\<lparr>pos := pos dec + 1\<rparr>"]
        decodeBin_optional_def body_def rest_def decC_def
        split: option.splits prod.splits sum.splits rtype.splits)
  have enc: "encoding decC = EncodingCompactU16 \<longrightarrow> underlying rt' \<noteq> TString"
    using assms(10) by (simp add: decC_def)
  have sc: "decodeBin_scalar X rt' rv' cs' opt decB
              = map_option (withOpt (Some opt)) (decodeBin_scalar X rt' rv' cs' opt' decC)"
    unfolding decB_def using enc not_opt(2) by (intro decodeBin_scalar_opt) simp_all
  have rest: "sameUpToOpt (rest (ctx @ ctx') decB) (up (rest ctx' decC))"
    using decodeStruct_opt [where X = X and rt = rt' and rv = rv' and cs = cs' and dec = decC
        and c = "Some opt"]
    by (auto simp: rest_def up_def decB_def sameUpToOpt_def plug_append
        split: rtype.splits prod.splits sum.splits)
  have "sameUpToOpt (body (ctx @ ctx') (decodeBin_scalar X rt' rv' cs' opt decB) decB)
                    (up (body ctx' (decodeBin_scalar X rt' rv' cs' opt' decC) decC))"
    using rest unfolding sc
    by (cases "decodeBin_scalar X rt' rv' cs' opt' decC")
      (auto simp: body_def up_def withOpt_def sameUpToOpt_def plug_append split: sum.splits)
  then have "sameUpToOpt (decodeBin X t v canSet (Some opt) dec)
           (up (decodeBin X rt rv cs (Some opt') (dec\<lparr>pos := pos dec + 1\<rparr>)))"
    by (simp only: L R)
  then show ?thesis by (simp only: opt'_def up_def)
qed

lemma decodeBin_present_override:
  assumes "isOptional opt"
    and "0 \<le> pos dec" and "pos dec < int (length (data dec))" and "length (data dec) < 2 ^ 63"
    and "data dec ! nat (pos dec) \<noteq> 0"
    and "indirect t v canSet True = Located ctx rt rv cs"
    and "indirect rt rv cs False = Override ctx' name x"
  shows "decodeBin X t v canSet (Some opt) dec =
           (case UnmarshalBinary X name x (dec\<lparr>currentFieldOpt := Some opt, pos := pos dec + 1\<rparr>) of
              (Inl err, d) \<Rightarrow> (Inl err, d)
            | (Inr x', d) \<Rightarrow> (Inr (plug (ctx @ ctx') x'), d))"
proof -
  have "ReadByte (dec\<lparr>currentFieldOpt := Some opt\<rparr>)
          = (Inr (data dec ! nat (pos dec)), dec\<lparr>currentFieldOpt := Some opt, pos := pos dec + 1\<rparr>)"
    using ReadByte_at [of "dec\<lparr>currentFieldOpt := Some opt\<rparr>"] assms(2-4) by simp
  then show ?thesis
    using assms(1,5,6,7)
    by (simp add: decodeBin.simps [of X t v canSet "Some opt" dec] decodeBin_optional_def nest_def)
qed

text \<open>
  Claim C3, amended. The directive is marked optional and the cursor is inside the
  buffer. Presence byte 0: when \<open>indirect\<close>, in its null-decoding mode, reaches a place
  that can be set, that place is set to its zero value, the call succeeds and exactly
  the presence byte is consumed; the result does not depend on the collaborators, so no
  override is invoked. The place is the destination itself for a settable destination
  that is neither a pointer nor an interface and whose pointer type has no override,
  and for a settable pointer that is nil or points to a non-pointer; such a pointer
  becomes nil, also when the pointed-to type has an override. Non-zero presence byte:
  the place reached in null-decoding mode is resolved again in the ordinary mode and
  decoded from the byte after the presence byte. When this finds an override (as for a
  settable pointer, nil or to a non-pointer, to a type with an override), the override
  is called on the session placed after the presence byte and its outcome is the
  outcome of the call. When it finds a place that is not an array or a slice (and, in
  the mode \<open>EncodingCompactU16\<close>, not a string), the value or failure and the final
  cursor are those of decoding the reached place without the optional flag from the
  byte after the presence byte on.
\<close>

theorem optional_presence_byte:
  assumes "isOptional opt"
    and "0 \<le> pos dec" and "pos dec < int (length (data dec))" and "length (data dec) < 2 ^ 63"
  shows
    "(data dec ! nat (pos dec) = 0 \<and> indirect t v canSet True = Located ctx rt rv True
        \<longrightarrow> decodeBin X t v canSet (Some opt) dec
              = (Inr (plug ctx (zero rt)),
                 dec\<lparr>currentFieldOpt := Some opt, pos := pos dec + 1\<rparr>))
     \<and> (data dec ! nat (pos dec) = 0
          \<and> \<not> isPtr t \<and> \<not> isInterface t \<and> \<not> implementsBinaryUnmarshaler (TPtr t)
        \<longrightarrow> decodeBin X t v True (Some opt) dec
              = (Inr (zero t), dec\<lparr>currentFieldOpt := Some opt, pos := pos dec + 1\<rparr>))
     \<and> (data dec ! nat (pos dec) = 0 \<and> (p = None \<or> \<not> isPtr u)
        \<longrightarrow> decodeBin X (TPtr u) (VPtr p) True (Some opt) dec
              = (Inr (VPtr None), dec\<lparr>currentFieldOpt := Some opt, pos := pos dec + 1\<rparr>))
     \<and> (data dec ! nat (pos dec) \<noteq> 0
          \<and> indirect t v canSet True = Located ctx rt rv cs
          \<and> indirect rt rv cs False = Override ctx' name x
        \<longrightarrow> decodeBin X t v canSet (Some opt) dec
              = (case UnmarshalBinary X name x
                        (dec\<lparr>currentFieldOpt := Some opt, pos := pos dec + 1\<rparr>) of
                   (Inl err, d) \<Rightarrow> (Inl err, d)
                 | (Inr x', d) \<Rightarrow> (Inr (plug (ctx @ ctx') x'), d)))
     \<and> (data dec ! nat (pos dec) \<noteq> 0
          \<and> (p = None \<or> \<not> isPtr u) \<and> implementsBinaryUnmarshaler (TPtr u)
        \<longrightarrow> decodeBin X (TPtr u) (VPtr p) True (Some opt) dec
              = (case UnmarshalBinary X (TypeName u) (case p of None \<Rightarrow> zero u | Some y \<Rightarrow> y)
                        (dec\<lparr>currentFieldOpt := Some opt, pos := pos dec + 1\<rparr>) of
                   (Inl err, d) \<Rightarrow> (Inl err, d)
                 | (Inr x', d) \<Rightarrow> (Inr (VPtr (Some x')), d)))
     \<and> (data dec ! nat (pos dec) \<noteq> 0
          \<and> indirect t v canSet True = Located ctx rt rv cs
          \<and> indirect rt rv cs False = Located ctx' rt' rv' cs'
          \<and> \<not> isArray rt' \<and> \<not> isSlice rt'
          \<and> (encoding dec = EncodingCompactU16 \<longrightarrow> underlying rt' \<noteq> TString)
        \<longrightarrow> fst (decodeBin X t v canSet (Some opt) dec)
              = (case fst (decodeBin X rt rv cs (Some (opt\<lparr>OptionalField := False\<rparr>))
                             (dec\<lparr>pos := pos dec + 1\<rparr>)) of
                   Inl err \<Rightarrow> Inl err
                 | Inr y \<Rightarrow> Inr (plug ctx y))
            \<and> pos (snd (decodeBin X t v canSet (Some opt) dec))
              = pos (snd (decodeBin X rt rv cs (Some (opt\<lparr>OptionalField := False\<rparr>))
                            (dec\<lparr>pos := pos dec + 1\<rparr>))))"
proof -
  have absent: "decodeBin X t v canSet (Some opt) dec
      = (Inr (plug ctx (zero rt)), dec\<lparr>currentFieldOpt := Some opt, pos := pos dec + 1\<rparr>)"
    if "data dec ! nat (pos dec) = 0" and "indirect t v canSet True = Located ctx rt rv True"
    for t v canSet ctx rt rv
    using assms that by (intro decodeBin_absent)
  have direct: "decodeBin X t v True (Some opt) dec
      = (Inr (zero t), dec\<lparr>currentFieldOpt := Some opt, pos := pos dec + 1\<rparr>)"
    if "data dec ! nat (pos dec) = 0"
      and "\<not> isPtr t" and "\<not> isInterface t" and "\<not> implementsBinaryUnmarshaler (TPtr t)"
    using absent [OF that(1) indirect_direct [OF that(2-4)]] by simp
  have pointer: "decodeBin X (TPtr u) (VPtr p) True (Some opt) dec
      = (Inr (VPtr None), dec\<lparr>currentFieldOpt := Some opt, pos := pos dec + 1\<rparr>)"
    if "data dec ! nat (pos dec) = 0" and "p = None \<or> \<not> isPtr u"
    using absent [OF that(1) indirect_pointer_decodingNull [OF that(2)]] by simp
  have override: "decodeBin X t v canSet (Some opt) dec
              = (case UnmarshalBinary X name x
                        (dec\<lparr>currentFieldOpt := Some opt, pos := pos dec + 1\<rparr>) of
                   (Inl err, d) \<Rightarrow> (Inl err, d)
                 | (Inr x', d) \<Rightarrow> (Inr (plug (ctx @ ctx') x'), d))"
    if "data dec ! nat (pos dec) \<noteq> 0"
      and "indirect t v canSet True = Located ctx rt rv cs"
      and "indirect rt rv cs False = Override ctx' name x"
    for t v canSet ctx rt rv cs ctx' name x
    using assms that by (intro decodeBin_present_override)
  have pointer_override: "decodeBin X (TPtr u) (VPtr p) True (Some opt) dec
              = (case UnmarshalBinary X (TypeName u) (case p of None \<Rightarrow> zero u | Some y \<Rightarrow> y)
                        (dec\<lparr>currentFieldOpt := Some opt, pos := pos dec + 1\<rparr>) of
                   (Inl err, d) \<Rightarrow> (Inl err, d)
                 | (Inr x', d) \<Rightarrow> (Inr (VPtr (Some x')), d))"
    if "data dec ! nat (pos dec) \<noteq> 0"
      and "p = None \<or> \<not> isPtr u" and "implementsBinaryUnmarshaler (TPtr u)"
    using override [OF that(1) indirect_pointer_decodingNull [OF that(2)]
        indirect_pointer_override [OF that(3)]]
    by (simp split: prod.splits sum.splits)
  have present: "fst (decodeBin X t v canSet (Some opt) dec)
              = (case fst (decodeBin X rt rv cs (Some (opt\<lparr>OptionalField := False\<rparr>))
                             (dec\<lparr>pos := pos dec + 1\<rparr>)) of
                   Inl err \<Rightarrow> Inl err
                 | Inr y \<Rightarrow> Inr (plug ctx y))
            \<and> pos (snd (decodeBin X t v canSet (Some opt) dec))
              = pos (snd (decodeBin X rt rv cs (Some (opt\<lparr>OptionalField := False\<rparr>))
                            (dec\<lparr>pos := pos dec + 1\<rparr>)))"
    if "data dec ! nat (pos dec) \<noteq> 0"
      and "indirect t v canSet True = Located ctx rt rv cs"
      and "indirect rt rv cs False = Located ctx' rt' rv' cs'"
      and "\<not> isArray rt'" and "\<not> isSlice rt'"
      and "encoding dec = EncodingCompactU16 \<longrightarrow> underlying rt' \<noteq> TString"
  proof -
    have "sameUpToOpt (decodeBin X t v canSet (Some opt) dec)
           (case decodeBin X rt rv cs (Some (opt\<lparr>OptionalField := False\<rparr>))
                   (dec\<lparr>pos := pos dec + 1\<rparr>) of
              (Inl err, d) \<Rightarrow> (Inl err, d)
            | (Inr y, d) \<Rightarrow> (Inr (plug ctx y), d))"
      using assms that by (intro decodeBin_present_located)
    from sameUpToOpt_pos [OF this] show ?thesis
      by (simp split: prod.splits sum.splits)
  qed
  from absent direct pointer override pointer_override present show ?thesis by blast
qed

theorem optional_presence_byte_witness:
  "decodeBin noExternals TUint32 (VUint 9) True (Some (optionalTag LittleEndian))
      (NewBinDecoder [0x00, 0x05])
     = (Inr (VUint 0),
        \<lparr>data = [0x00, 0x05], pos = 1, currentFieldOpt = Some (optionalTag LittleEndian),
           encoding = EncodingBin\<rparr>)
   \<and> decodeBin readsOneByte (TPtr (TDefined ''T'' TUint32 True)) (VPtr (Some (VUint 9))) True
      (Some (optionalTag LittleEndian)) (NewBinDecoder [0x00, 0x05])
     = (Inr (VPtr None),
        \<lparr>data = [0x00, 0x05], pos = 1, currentFieldOpt = Some (optionalTag LittleEndian),
           encoding = EncodingBin\<rparr>)
   \<and> decodeBin readsOneByte (TPtr (TDefined ''T'' TUint32 True)) (VPtr None) True
      (Some (optionalTag LittleEndian)) (NewBinDecoder [0x01, 0x07])
     = (Inr (VPtr (Some (VUint 7))),
        \<lparr>data = [0x01, 0x07], pos = 2, currentFieldOpt = Some (optionalTag LittleEndian),
           encoding = EncodingBin\<rparr>)
   \<and> fst (decodeBin noExternals (TPtr TUint32) (VPtr None) True
           (Some (optionalTag LittleEndian)) (NewBinDecoder [0x01, 0x05, 0x00, 0x00, 0x00]))
     = Inr (VPtr (Some (VUint 5)))
   \<and> pos (snd (decodeBin noExternals (TPtr TUint32) (VPtr None) True
           (Some (optionalTag LittleEndian)) (NewBinDecoder [0x01, 0x05, 0x00, 0x00, 0x00])))
     = 5"
  using
    optional_presence_byte
      [where opt = "optionalTag LittleEndian" and dec = "NewBinDecoder [0x00, 0x05]"
         and X = noExternals and t = TUint32 and v = "VUint 9" and canSet = True
         and ctx = "[]" and rt = TUint32 and rv = "VUint 9"
         and u = TUint32 and p = "Some (VUint 9)"]
    optional_presence_byte
      [where opt = "optionalTag LittleEndian" and dec = "NewBinDecoder [0x00, 0x05]"
         and X = readsOneByte and t = TUint32 and v = "VUint 9" and canSet = True
         and ctx = "[]" and rt = TUint32 and rv = "VUint 9"
         and u = "TDefined ''T'' TUint32 True" and p = "Some (VUint 9)"]
    optional_presence_byte
      [where opt = "optionalTag LittleEndian" and dec = "NewBinDecoder [0x01, 0x07]"
         and X = readsOneByte and t = "TPtr (TDefined ''T'' TUint32 True)" and v = "VPtr None"
         and canSet = True and ctx = "[]" and rt = "TPtr (TDefined ''T'' TUint32 True)"
         and rv = "VPtr None" and cs = True and ctx' = "[InPtr]" and name = "''T''"
         and x = "VUint 0" and u = "TDefined ''T'' TUint32 True" and p = None]
    optional_presence_byte
      [where opt = "optionalTag LittleEndian"
         and dec = "NewBinDecoder [0x01, 0x05, 0x00, 0x00, 0x00]"
         and X = noExternals and t = "TPtr TUint32" and v = "VPtr None" and canSet = True
         and ctx = "[]" and rt = "TPtr TUint32" and rv = "VPtr None" and cs = True
         and ctx' = "[InPtr]" and rt' = TUint32 and rv' = "VUint 0" and cs' = True]
  by (simp add: eval_defs optionalTag_def readsOneByte_def isArray_def isSlice_def)

text \<open>
  Claim C3, as stated (for every destination, presence byte 0 sets the destination to its
  zero value, and a non-zero presence byte followed by a valid encoding yields that
  value). A non-nil pointer to a pointer keeps its outer pointer: only the inner pointer
  becomes nil, which is not the zero value of the destination. An array hands the
  optional directive on to its elements: after the presence byte 1, the bytes \<open>05 06\<close>,
  a valid encoding of the array, are read as a presence byte and a value of the first
  element, and the second element finds no byte.
\<close>

theorem optional_absent_is_not_always_zero:
  "decodeBin noExternals (TPtr (TPtr TUint8)) (VPtr (Some (VPtr (Some (VUint 5))))) True
      (Some (optionalTag LittleEndian)) (NewBinDecoder [0x00])
     = (Inr (VPtr (Some (VPtr None))),
        \<lparr>data = [0x00], pos = 1, currentFieldOpt = Some (optionalTag LittleEndian),
           encoding = EncodingBin\<rparr>)
   \<and> zero (TPtr (TPtr TUint8)) = VPtr None
   \<and> fst (decodeBin noExternals (TArray 2 TUint8) (VArray [VUint 0, VUint 0]) True
           (Some (optionalTag LittleEndian)) (NewBinDecoder [0x01, 0x05, 0x06]))
     = Inl (Failed (IsPresentError (TruncatedInput 1 0)))
   \<and> fst (decodeBin noExternals (TArray 2 TUint8) (VArray [VUint 0, VUint 0]) True
           (Some ((optionalTag LittleEndian)\<lparr>OptionalField := False\<rparr>))
           (NewBinDecoder [0x05, 0x06]))
     = Inr (VArray [VUint 5, VUint 6])"
  by (simp add: eval_defs optionalTag_def)

text \<open>
  A destination that is a value (not a pointer) of a type with an override: \<open>indirect\<close>
  returns the unmarshaler and the invalid \<open>reflect.Value{}\<close>, and the optional block
  then calls \<open>rv.Type()\<close> on it, which panics.
\<close>

lemma optional_on_value_with_override_panics:
  "decodeBin X (TDefined ''T'' TUint32 True) (VUint 5) True
      (Some (optionalTag LittleEndian)) (NewBinDecoder [0x00])
     = (Inl (Panicked ReflectPanic),
        \<lparr>data = [0x00], pos = 1, currentFieldOpt = Some (optionalTag LittleEndian),
           encoding = EncodingBin\<rparr>)"
  by (simp add: eval_defs optionalTag_def)

end
